theory Spec2Isabelle
  imports Main
begin

section \<open>SHA-256\<close>

text \<open>
  \<open>calculateHash\<close> calls \<open>CryptoJS.SHA256(text).toString()\<close>: the SHA-256 digest
  (FIPS 180-4) of the UTF-8 bytes of the text, as 64 lowercase hexadecimal characters.
  A 32-bit word is the list of its 32 bits, least significant bit first; a \<open>string\<close>
  holds the bytes of the text.
\<close>

type_synonym word32 = "bool list"

text \<open>The low \<open>k\<close> bits of a number.\<close>

fun bits_of_nat :: "nat \<Rightarrow> nat \<Rightarrow> bool list" where
  "bits_of_nat 0 n = []"
| "bits_of_nat (Suc k) n = odd n # bits_of_nat k (n div 2)"

fun bits_of_int :: "nat \<Rightarrow> int \<Rightarrow> bool list" where
  "bits_of_int 0 n = []"
| "bits_of_int (Suc k) n = odd n # bits_of_int k (n div 2)"

fun nat_of_bits :: "bool list \<Rightarrow> nat" where
  "nat_of_bits [] = 0"
| "nat_of_bits (b # bs) = (if b then 1 else 0) + 2 * nat_of_bits bs"

fun xor32 :: "word32 \<Rightarrow> word32 \<Rightarrow> word32" where
  "xor32 (x # xs) (y # ys) = (x \<noteq> y) # xor32 xs ys"
| "xor32 _ _ = []"

fun and32 :: "word32 \<Rightarrow> word32 \<Rightarrow> word32" where
  "and32 (x # xs) (y # ys) = (x \<and> y) # and32 xs ys"
| "and32 _ _ = []"

definition not32 :: "word32 \<Rightarrow> word32" where
  "not32 x = map Not x"

text \<open>Addition modulo \<open>2 ^ 32\<close>: a ripple-carry adder that drops the last carry.\<close>

fun add_carry :: "bool \<Rightarrow> word32 \<Rightarrow> word32 \<Rightarrow> word32" where
  "add_carry c (x # xs) (y # ys) =
     ((x \<noteq> y) \<noteq> c) # add_carry ((x \<and> y) \<or> (c \<and> (x \<noteq> y))) xs ys"
| "add_carry c _ _ = []"

definition add32 :: "word32 \<Rightarrow> word32 \<Rightarrow> word32" where
  "add32 x y = add_carry False x y"

definition rotr :: "nat \<Rightarrow> word32 \<Rightarrow> word32" where
  "rotr n x = drop n x @ take n x"

definition shr :: "nat \<Rightarrow> word32 \<Rightarrow> word32" where
  "shr n x = drop n x @ replicate n False"

definition Ch :: "word32 \<Rightarrow> word32 \<Rightarrow> word32 \<Rightarrow> word32" where
  "Ch x y z = xor32 (and32 x y) (and32 (not32 x) z)"

definition Maj :: "word32 \<Rightarrow> word32 \<Rightarrow> word32 \<Rightarrow> word32" where
  "Maj x y z = xor32 (xor32 (and32 x y) (and32 x z)) (and32 y z)"

definition Sigma0 :: "word32 \<Rightarrow> word32" where
  "Sigma0 x = xor32 (xor32 (rotr 2 x) (rotr 13 x)) (rotr 22 x)"

definition Sigma1 :: "word32 \<Rightarrow> word32" where
  "Sigma1 x = xor32 (xor32 (rotr 6 x) (rotr 11 x)) (rotr 25 x)"

definition sigma0 :: "word32 \<Rightarrow> word32" where
  "sigma0 x = xor32 (xor32 (rotr 7 x) (rotr 18 x)) (shr 3 x)"

definition sigma1 :: "word32 \<Rightarrow> word32" where
  "sigma1 x = xor32 (xor32 (rotr 17 x) (rotr 19 x)) (shr 10 x)"

text \<open>
  The round constants, in the eight rows of eight in which the standard prints them, and
  the initial hash value.
\<close>

definition K256 :: "int list" where
  "K256 = concat [
     [0x428a2f98, 0x71374491, 0xb5c0fbcf, 0xe9b5dba5, 0x3956c25b, 0x59f111f1, 0x923f82a4, 0xab1c5ed5],
     [0xd807aa98, 0x12835b01, 0x243185be, 0x550c7dc3, 0x72be5d74, 0x80deb1fe, 0x9bdc06a7, 0xc19bf174],
     [0xe49b69c1, 0xefbe4786, 0x0fc19dc6, 0x240ca1cc, 0x2de92c6f, 0x4a7484aa, 0x5cb0a9dc, 0x76f988da],
     [0x983e5152, 0xa831c66d, 0xb00327c8, 0xbf597fc7, 0xc6e00bf3, 0xd5a79147, 0x06ca6351, 0x14292967],
     [0x27b70a85, 0x2e1b2138, 0x4d2c6dfc, 0x53380d13, 0x650a7354, 0x766a0abb, 0x81c2c92e, 0x92722c85],
     [0xa2bfe8a1, 0xa81a664b, 0xc24b8b70, 0xc76c51a3, 0xd192e819, 0xd6990624, 0xf40e3585, 0x106aa070],
     [0x19a4c116, 0x1e376c08, 0x2748774c, 0x34b0bcb5, 0x391c0cb3, 0x4ed8aa4a, 0x5b9cca4f, 0x682e6ff3],
     [0x748f82ee, 0x78a5636f, 0x84c87814, 0x8cc70208, 0x90befffa, 0xa4506ceb, 0xbef9a3f7, 0xc67178f2]]"

type_synonym sha_state =
  "word32 \<times> word32 \<times> word32 \<times> word32 \<times> word32 \<times> word32 \<times> word32 \<times> word32"

definition H256 :: sha_state where
  "H256 = (bits_of_int 32 0x6a09e667, bits_of_int 32 0xbb67ae85,
           bits_of_int 32 0x3c6ef372, bits_of_int 32 0xa54ff53a,
           bits_of_int 32 0x510e527f, bits_of_int 32 0x9b05688c,
           bits_of_int 32 0x1f83d9ab, bits_of_int 32 0x5be0cd19)"

definition round_step :: "word32 \<Rightarrow> word32 \<Rightarrow> sha_state \<Rightarrow> sha_state" where
  "round_step k w s = (case s of (a, b, c, d, e, f, g, h) \<Rightarrow>
     (let t1 = add32 (add32 (add32 (add32 h (Sigma1 e)) (Ch e f g)) k) w;
          t2 = add32 (Sigma0 a) (Maj a b c)
      in (add32 t1 t2, a, b, c, add32 d t1, e, f, g)))"

text \<open>
  The message schedule is kept as a window of the sixteen most recent words, oldest
  first: the head is the word of the current round.
\<close>

definition next_w :: "word32 list \<Rightarrow> word32" where
  "next_w w = add32 (add32 (add32 (sigma1 (w ! 14)) (w ! 9)) (sigma0 (w ! 1))) (w ! 0)"

primrec rounds :: "word32 list \<Rightarrow> word32 list \<Rightarrow> sha_state \<Rightarrow> sha_state" where
  "rounds [] w s = s"
| "rounds (k # ks) w s = rounds ks (tl w @ [next_w w]) (round_step k (hd w) s)"

definition compress :: "sha_state \<Rightarrow> word32 list \<Rightarrow> sha_state" where
  "compress s w = (case s of (a, b, c, d, e, f, g, h) \<Rightarrow>
     (case rounds (map (bits_of_int 32) K256) w s of (a', b', c', d', e', f', g', h') \<Rightarrow>
        (add32 a a', add32 b b', add32 c c', add32 d d',
         add32 e e', add32 f f', add32 g g', add32 h h')))"

fun sha_blocks :: "sha_state \<Rightarrow> word32 list \<Rightarrow> sha_state" where
  "sha_blocks s ws =
     (if length ws < 16 then s else sha_blocks (compress s (take 16 ws)) (drop 16 ws))"

declare sha_blocks.simps [simp del]

text \<open>Bytes are lists of 8 bits, least significant first; words are big-endian.\<close>

fun bits_of_char :: "char \<Rightarrow> bool list" where
  "bits_of_char (Char b0 b1 b2 b3 b4 b5 b6 b7) = [b0, b1, b2, b3, b4, b5, b6, b7]"

fun be_words :: "bool list list \<Rightarrow> word32 list" where
  "be_words (a # b # c # d # bs) = (d @ c @ b @ a) # be_words bs"
| "be_words _ = []"

definition sha_pad :: "bool list list \<Rightarrow> bool list list" where
  "sha_pad bs = (let l = length bs in
     bs @ [bits_of_nat 8 128] @ replicate ((119 - l mod 64) mod 64) (bits_of_nat 8 0) @
     map (\<lambda>i. take 8 (drop (8 * (7 - i)) (bits_of_nat 64 (8 * l)))) [0..<8])"

definition hexdigit :: "nat \<Rightarrow> char" where
  "hexdigit n = ''0123456789abcdef'' ! n"

definition hex32 :: "word32 \<Rightarrow> string" where
  "hex32 w = map (\<lambda>i. hexdigit (nat_of_bits (take 4 (drop (4 * (7 - i)) w)))) [0..<8]"

definition SHA256 :: "string \<Rightarrow> string" where
  "SHA256 s =
     (case sha_blocks H256 (be_words (sha_pad (map bits_of_char s))) of
      (a, b, c, d, e, f, g, h) \<Rightarrow> concat (map hex32 [a, b, c, d, e, f, g, h]))"

section \<open>Numbers and JSON text\<close>

text \<open>
  \<open>calculateHash\<close> concatenates numbers and strings, so each number is rendered by
  JavaScript's \<open>Number::toString\<close>. The numbers of a block (index, timestamp in
  milliseconds, nonce) are integers; they are modelled as \<open>int\<close> and rendered in
  decimal, which is what JavaScript prints for an integer of magnitude below \<open>10 ^ 21\<close>.
\<close>

definition digit_char :: "int \<Rightarrow> char" where
  "digit_char n = char_of (48 + n)"

function digits :: "int \<Rightarrow> string" where
  "digits n = (if n < 10 then [digit_char n] else digits (n div 10) @ [digit_char (n mod 10)])"
  by pat_completeness auto
termination
  by (relation "measure nat") auto

declare digits.simps [simp del]

definition Number_toString :: "int \<Rightarrow> string" where
  "Number_toString n = (if n < 0 then CHR ''-'' # digits (- n) else digits n)"

text \<open>
  The payload of a block (\<open>data: any\<close>) is a JSON value: the genesis block carries the
  string \<open>'Genesis Block'\<close>, every other block the record of a security association.
  An object is the list of its properties in insertion order.
\<close>

datatype json =
    JNull
  | JBool bool
  | JNumber int
  | JString string
  | JArray "json list"
  | JObject "(string \<times> json) list"

definition hex2 :: "nat \<Rightarrow> string" where
  "hex2 n = [hexdigit (n div 16), hexdigit (n mod 16)]"

definition json_escape :: "char \<Rightarrow> string" where
  "json_escape c =
     (if c = CHR 0x22 then [CHR 0x5C, CHR 0x22]
      else if c = CHR 0x5C then [CHR 0x5C, CHR 0x5C]
      else if c = CHR 0x08 then [CHR 0x5C, CHR ''b'']
      else if c = CHR 0x0C then [CHR 0x5C, CHR ''f'']
      else if c = CHR 0x0A then [CHR 0x5C, CHR ''n'']
      else if c = CHR 0x0D then [CHR 0x5C, CHR ''r'']
      else if c = CHR 0x09 then [CHR 0x5C, CHR ''t'']
      else if (of_char c :: nat) < 32 then [CHR 0x5C, CHR ''u'', CHR ''0'', CHR ''0''] @ hex2 (of_char c)
      else [c])"

definition json_quote :: "string \<Rightarrow> string" where
  "json_quote s = CHR 0x22 # concat (map json_escape s) @ [CHR 0x22]"

fun join :: "string \<Rightarrow> string list \<Rightarrow> string" where
  "join sep [] = []"
| "join sep [x] = x"
| "join sep (x # y # ys) = x @ sep @ join sep (y # ys)"

fun JSON_stringify :: "json \<Rightarrow> string" where
  "JSON_stringify JNull = ''null''"
| "JSON_stringify (JBool b) = (if b then ''true'' else ''false'')"
| "JSON_stringify (JNumber n) = Number_toString n"
| "JSON_stringify (JString s) = json_quote s"
| "JSON_stringify (JArray xs) = ''['' @ join '','' (map JSON_stringify xs) @ '']''"
| "JSON_stringify (JObject ps) =
     ''{'' @ join '','' (map (\<lambda>p. json_quote (fst p) @ '':'' @ JSON_stringify (snd p)) ps) @ ''}''"

section \<open>Blocks\<close>

text \<open>
  \<open>class Block\<close>: the four constructor parameters are public fields, \<open>nonce\<close> starts at
  \<open>0\<close> and \<open>hash\<close> is set by the constructor.
\<close>

record Block =
  index :: int
  timestamp :: int
  data :: json
  previousHash :: string
  nonce :: int
  hash :: string

text \<open>
  \<open>digest\<close> is the text that \<open>calculateHash\<close> builds, hashed:
  \<open>index + previousHash + timestamp + JSON.stringify(data) + nonce\<close>, where \<open>+\<close> is string
  concatenation because the second operand is a string.
\<close>

definition preimage :: "int \<Rightarrow> string \<Rightarrow> int \<Rightarrow> json \<Rightarrow> int \<Rightarrow> string" where
  "preimage i p t d n =
     Number_toString i @ p @ Number_toString t @ JSON_stringify d @ Number_toString n"

definition digest :: "int \<Rightarrow> string \<Rightarrow> int \<Rightarrow> json \<Rightarrow> int \<Rightarrow> string" where
  "digest i p t d n = SHA256 (preimage i p t d n)"

definition calculateHash :: "Block \<Rightarrow> string" where
  "calculateHash b = digest (index b) (previousHash b) (timestamp b) (data b) (nonce b)"

text \<open>
  \<open>String.prototype.substring(start, end)\<close>: both positions are clamped to the string and
  swapped when out of order.
\<close>

definition substring :: "string \<Rightarrow> int \<Rightarrow> int \<Rightarrow> string" where
  "substring s start end =
     (let len = int (length s);
          a = min (max start 0) len;
          b = min (max end 0) len
      in take (nat (max a b - min a b)) (drop (nat (min a b)) s))"

text \<open>\<open>Array(n).join('0')\<close> for a valid length \<open>n\<close>: \<open>n - 1\<close> separators.\<close>

definition Array_join_zeros :: "nat \<Rightarrow> string" where
  "Array_join_zeros n = replicate (n - 1) (CHR ''0'')"

text \<open>
  \<open>this.nonce++\<close> on a JavaScript number: exact up to \<open>2 ^ 53\<close>, where adding one no
  longer changes the value.
\<close>

definition increment :: "int \<Rightarrow> int" where
  "increment n = (if n < 9007199254740992 then n + 1 else n)"

text \<open>One turn of the loop of \<open>mineBlock\<close>.\<close>

definition mine_step :: "Block \<Rightarrow> Block" where
  "mine_step b = (let b' = b\<lparr>nonce := increment (nonce b)\<rparr> in b'\<lparr>hash := calculateHash b'\<rparr>)"

text \<open>
  The \<open>while\<close> loop of \<open>mineBlock\<close> has no bound: \<open>None\<close> is the search that never ends.
\<close>

partial_function (option) mineLoop :: "int \<Rightarrow> string \<Rightarrow> Block \<Rightarrow> Block option" where
  "mineLoop difficulty target b =
     (if substring (hash b) 0 difficulty \<noteq> target
      then mineLoop difficulty target (mine_step b)
      else Some b)"

declare mineLoop.simps [code]

section \<open>The heap and the ledger\<close>

text \<open>
  Blocks and arrays are JavaScript objects: they are held by reference and can be reached
  from several places. The heap maps an address to the block, or to the array of block
  references, stored there; \<open>nextRef\<close> is the next unused address.
\<close>

type_synonym ref = nat

record world =
  blocks :: "ref \<Rightarrow> Block"
  arrays :: "ref \<Rightarrow> ref list"
  nextRef :: ref

text \<open>
  \<open>class SimpleBlockchain\<close>: the private field \<open>chain\<close> refers to an array of blocks,
  \<open>difficulty\<close> is \<open>2\<close>. Neither field is assigned after the constructor.
\<close>

record SimpleBlockchain =
  chain :: ref
  difficulty :: int

datatype error = TypeError | RangeError

text \<open>
  A call either returns (\<open>Some (Inr _)\<close>), throws (\<open>Some (Inl _)\<close>) or never returns
  (\<open>None\<close>).
\<close>

definition new_Array :: "ref list \<Rightarrow> world \<Rightarrow> ref \<times> world" where
  "new_Array xs w =
     (nextRef w, w\<lparr>arrays := (arrays w)(nextRef w := xs), nextRef := Suc (nextRef w)\<rparr>)"

text \<open>\<open>new Block(index, timestamp, data, previousHash)\<close>\<close>

definition new_Block :: "int \<Rightarrow> int \<Rightarrow> json \<Rightarrow> string \<Rightarrow> world \<Rightarrow> ref \<times> world" where
  "new_Block i t d p w =
     (let b0 = \<lparr>index = i, timestamp = t, data = d, previousHash = p, nonce = 0, hash = []\<rparr>;
          b = b0\<lparr>hash := calculateHash b0\<rparr>
      in (nextRef w, w\<lparr>blocks := (blocks w)(nextRef w := b), nextRef := Suc (nextRef w)\<rparr>))"

text \<open>\<open>Block.mineBlock(difficulty)\<close> on the block at address \<open>this\<close>.\<close>

definition mineBlock :: "int \<Rightarrow> ref \<Rightarrow> world \<Rightarrow> (error + world) option" where
  "mineBlock d this w =
     (if d + 1 < 0 \<or> 4294967295 < d + 1 then Some (Inl RangeError)
      else (case mineLoop d (Array_join_zeros (nat (d + 1))) (blocks w this) of
              None \<Rightarrow> None
            | Some b \<Rightarrow> Some (Inr (w\<lparr>blocks := (blocks w)(this := b)\<rparr>))))"

text \<open>\<open>createGenesisBlock\<close>; \<open>now\<close> is the value of \<open>Date.now()\<close>.\<close>

definition createGenesisBlock :: "int \<Rightarrow> world \<Rightarrow> ref \<times> world" where
  "createGenesisBlock now w = new_Block 0 now (JString ''Genesis Block'') ''0'' w"

text \<open>
  \<open>new SimpleBlockchain()\<close>: the field initialiser allocates an empty array, the
  constructor replaces it by a new array holding the genesis block.
\<close>

definition new_SimpleBlockchain :: "int \<Rightarrow> world \<Rightarrow> SimpleBlockchain \<times> world" where
  "new_SimpleBlockchain now w =
     (let (e, w1) = new_Array [] w;
          (g, w2) = createGenesisBlock now w1;
          (a, w3) = new_Array [g] w2
      in (\<lparr>chain = a, difficulty = 2\<rparr>, w3))"

text \<open>\<open>getLatestBlock\<close>: \<open>None\<close> is \<open>undefined\<close>, the element at index \<open>-1\<close> of an empty array.\<close>

definition getLatestBlock :: "SimpleBlockchain \<Rightarrow> world \<Rightarrow> ref option" where
  "getLatestBlock L w =
     (let c = arrays w (chain L) in if c = [] then None else Some (c ! (length c - 1)))"

definition addBlock :: "SimpleBlockchain \<Rightarrow> ref \<Rightarrow> world \<Rightarrow> (error + string \<times> world) option" where
  "addBlock L newBlock w =
     (case getLatestBlock L w of
        None \<Rightarrow> Some (Inl TypeError)
      | Some tip \<Rightarrow>
          (let w1 = w\<lparr>blocks := (blocks w)
                      (newBlock := (blocks w newBlock)\<lparr>previousHash := hash (blocks w tip)\<rparr>)\<rparr>
           in case mineBlock (difficulty L) newBlock w1 of
                None \<Rightarrow> None
              | Some (Inl e) \<Rightarrow> Some (Inl e)
              | Some (Inr w2) \<Rightarrow>
                  (let w3 = w2\<lparr>arrays := (arrays w2)
                               (chain L := arrays w2 (chain L) @ [newBlock])\<rparr>
                   in Some (Inr (hash (blocks w3 newBlock), w3)))))"

text \<open>
  \<open>createSABlock(saRecord)\<close>: \<open>{...saRecord, timestamp: Date.now()}\<close> keeps the properties
  of the record in order and replaces (or adds at the end) \<open>timestamp\<close>. The two calls of
  \<open>Date.now()\<close> are the parameters \<open>now1\<close> and \<open>now2\<close>.
\<close>

fun set_property :: "string \<Rightarrow> json \<Rightarrow> (string \<times> json) list \<Rightarrow> (string \<times> json) list" where
  "set_property k v [] = [(k, v)]"
| "set_property k v (p # ps) = (if fst p = k then (k, v) # ps else p # set_property k v ps)"

definition createSABlock ::
  "SimpleBlockchain \<Rightarrow> (string \<times> json) list \<Rightarrow> int \<Rightarrow> int \<Rightarrow> world \<Rightarrow> error + ref \<times> world" where
  "createSABlock L saRecord now1 now2 w =
     (let blockData = JObject (set_property ''timestamp'' (JNumber now1) saRecord)
      in case getLatestBlock L w of
           None \<Rightarrow> Inl TypeError
         | Some tip \<Rightarrow>
             Inr (new_Block (int (length (arrays w (chain L)))) now2 blockData
                    (hash (blocks w tip)) w))"

text \<open>The loop of \<open>isChainValid\<close>, from index \<open>i\<close>.\<close>

function isChainValid_from :: "nat \<Rightarrow> ref list \<Rightarrow> world \<Rightarrow> bool" where
  "isChainValid_from i c w =
     (if i < length c then
        (let currentBlock = blocks w (c ! i);
             previousBlock = blocks w (c ! (i - 1))
         in if hash currentBlock \<noteq> calculateHash currentBlock then False
            else if previousHash currentBlock \<noteq> hash previousBlock then False
            else isChainValid_from (i + 1) c w)
      else True)"
  by pat_completeness auto
termination
  by (relation "measure (\<lambda>(i, c, w). length c - i)") auto

declare isChainValid_from.simps [simp del]

definition isChainValid :: "SimpleBlockchain \<Rightarrow> world \<Rightarrow> bool" where
  "isChainValid L w = isChainValid_from 1 (arrays w (chain L)) w"

text \<open>
  \<open>getBlockByHash\<close>: \<open>Array.prototype.find\<close> gives the first element that satisfies the
  test or \<open>undefined\<close>; a block is an object, hence truthy, so \<open>|| null\<close> only turns
  \<open>undefined\<close> into \<open>null\<close> (\<open>None\<close>).
\<close>

definition getBlockByHash :: "SimpleBlockchain \<Rightarrow> string \<Rightarrow> world \<Rightarrow> ref option" where
  "getBlockByHash L h w = find (\<lambda>block. hash (blocks w block) = h) (arrays w (chain L))"

text \<open>\<open>getAllBlocks\<close>: \<open>[...this.chain]\<close> is a new array with the same elements.\<close>

definition getAllBlocks :: "SimpleBlockchain \<Rightarrow> world \<Rightarrow> ref \<times> world" where
  "getAllBlocks L w = new_Array (arrays w (chain L)) w"

text \<open>
  What code outside the ledger can do with the references it holds: assign a field of a
  block (\<open>block.data = v\<close>), and change an array (\<open>push\<close>, \<open>pop\<close>, \<open>splice\<close>,
  assigning an element or the length), which leaves the array with some new content.
\<close>

datatype field_write =
    SetIndex int
  | SetTimestamp int
  | SetData json
  | SetPreviousHash string
  | SetNonce int

fun write_field :: "field_write \<Rightarrow> Block \<Rightarrow> Block" where
  "write_field (SetIndex v) b = b\<lparr>index := v\<rparr>"
| "write_field (SetTimestamp v) b = b\<lparr>timestamp := v\<rparr>"
| "write_field (SetData v) b = b\<lparr>data := v\<rparr>"
| "write_field (SetPreviousHash v) b = b\<lparr>previousHash := v\<rparr>"
| "write_field (SetNonce v) b = b\<lparr>nonce := v\<rparr>"

definition assign_field :: "ref \<Rightarrow> field_write \<Rightarrow> world \<Rightarrow> world" where
  "assign_field r f w = w\<lparr>blocks := (blocks w)(r := write_field f (blocks w r))\<rparr>"

definition write_array :: "ref \<Rightarrow> ref list \<Rightarrow> world \<Rightarrow> world" where
  "write_array a xs w = w\<lparr>arrays := (arrays w)(a := xs)\<rparr>"

text \<open>The blocks of the chain, in order, as the ledger sees them.\<close>

definition chainBlocks :: "SimpleBlockchain \<Rightarrow> world \<Rightarrow> Block list" where
  "chainBlocks L w = map (blocks w) (arrays w (chain L))"

section \<open>Chains produced by the ledger\<close>

text \<open>The text that \<open>calculateHash\<close> hashes for a block.\<close>

definition preimage_of :: "Block \<Rightarrow> string" where
  "preimage_of b = preimage (index b) (previousHash b) (timestamp b) (data b) (nonce b)"

text \<open>
  A field assignment changes a block when the new number or string differs from the old
  one, or when the new payload has a different JSON text.
\<close>

fun changes :: "field_write \<Rightarrow> Block \<Rightarrow> bool" where
  "changes (SetIndex v) b = (v \<noteq> index b)"
| "changes (SetTimestamp v) b = (v \<noteq> timestamp b)"
| "changes (SetData v) b = (JSON_stringify v \<noteq> JSON_stringify (data b))"
| "changes (SetPreviousHash v) b = (v \<noteq> previousHash b)"
| "changes (SetNonce v) b = (v \<noteq> nonce b)"

definition linked :: "Block list \<Rightarrow> bool" where
  "linked bs \<longleftrightarrow>
     (\<forall>i. 1 \<le> i \<and> i < length bs \<longrightarrow> previousHash (bs ! i) = hash (bs ! (i - 1)))"

text \<open>
  The states of a ledger and its heap that the operations produce: the constructor
  creates the ledger with its genesis block; \<open>addBlock\<close> is called on a block object,
  whatever its fields are and whether or not it is in the chain already, and returns; in
  between, the program may allocate and change other objects, but nothing outside the
  ledger touches the chain array or a block in it.
\<close>

inductive produced :: "SimpleBlockchain \<Rightarrow> world \<Rightarrow> bool" where
  created: "new_SimpleBlockchain now w0 = (L, w) \<Longrightarrow> produced L w"
| appended: "produced L w \<Longrightarrow> newBlock < nextRef w \<Longrightarrow>
     addBlock L newBlock w = Some (Inr (h, w')) \<Longrightarrow> produced L w'"
| untouched: "produced L w \<Longrightarrow> nextRef w \<le> nextRef w' \<Longrightarrow>
     arrays w' (chain L) = arrays w (chain L) \<Longrightarrow>
     (\<And>r. r \<in> set (arrays w (chain L)) \<Longrightarrow> blocks w' r = blocks w r) \<Longrightarrow> produced L w'"

text \<open>
  The states reached the way the repository appends: every block passed to \<open>addBlock\<close>
  was built by \<open>createSABlock\<close> just before (\<open>SADatabaseService.addSA\<close>, \<open>deleteSA\<close>,
  \<open>updateSAStatus\<close>).
\<close>

inductive recorded :: "SimpleBlockchain \<Rightarrow> world \<Rightarrow> bool" where
  constructed: "new_SimpleBlockchain now w0 = (L, w) \<Longrightarrow> recorded L w"
| witnessed: "recorded L w \<Longrightarrow> createSABlock L saRecord now1 now2 w = Inr (r, w1) \<Longrightarrow>
     addBlock L r w1 = Some (Inr (h, w2)) \<Longrightarrow> recorded L w2"

section \<open>A worked example\<close>

text \<open>
  A ledger created at time \<open>1700000000000\<close> in an empty heap: the empty array of the field
  initialiser is at address 0, the genesis block at 1, the chain array at 2. A block for
  the payload \<open>{"spi":4096,"status":"active"}\<close>, built at time \<open>1700000006986\<close>, is
  allocated at address 3: once with the hash of the genesis block as its
  \<open>previousHash\<close> (\<open>world1\<close>, appended in \<open>world2\<close>), once with the empty string
  (\<open>stale1\<close>, appended in \<open>stale2\<close>), and once, built at time \<open>1700000007106\<close>, for a
  sealing that takes one step (\<open>unsealed1\<close>, \<open>sealed1\<close>).
\<close>

definition empty_world :: world where
  "empty_world =
     \<lparr>blocks = (\<lambda>r. \<lparr>index = 0, timestamp = 0, data = JNull, previousHash = [],
                      nonce = 0, hash = []\<rparr>),
      arrays = (\<lambda>r. []), nextRef = 0\<rparr>"

definition example_payload :: json where
  "example_payload = JObject [(''spi'', JNumber 4096), (''status'', JString ''active'')]"

definition tampered_payload :: json where
  "tampered_payload = JObject [(''spi'', JNumber 4096), (''status'', JString ''expired'')]"

definition genesis_hash :: string where
  "genesis_hash = ''daa977ddc32f01990662021bc43519fb2e63f83ed57221df930cebed9c0d3871''"

definition linked_hash :: string where
  "linked_hash = ''005678e55b947ee0bb330995ca5414800da7fefa8c018fb40b1f7b033161aced''"

definition stale_hash :: string where
  "stale_hash = ''0009add83280ffc0388a791ada10f721e00848237cafc91a04d447dfcfa535f0''"

definition example_ledger :: SimpleBlockchain where
  "example_ledger = fst (new_SimpleBlockchain 1700000000000 empty_world)"

definition world0 :: world where
  "world0 = snd (new_SimpleBlockchain 1700000000000 empty_world)"

definition world1 :: world where
  "world1 = snd (new_Block 1 1700000006986 example_payload genesis_hash world0)"

definition world2 :: world where
  "world2 = world1\<lparr>arrays := (arrays world1)(2 := [1, 3])\<rparr>"

definition stale1 :: world where
  "stale1 = snd (new_Block 1 1700000006986 example_payload [] world0)"

definition stale2 :: world where
  "stale2 = stale1\<lparr>blocks := (blocks stale1)(3 := (blocks stale1 3)\<lparr>previousHash := genesis_hash\<rparr>),
                  arrays := (arrays stale1)(2 := [1, 3])\<rparr>"

definition unsealed1 :: world where
  "unsealed1 = snd (new_Block 1 1700000007106 example_payload [] world0)"

definition sealed1 :: world where
  "sealed1 = unsealed1\<lparr>blocks := (blocks unsealed1)(3 := (blocks unsealed1 3)
     \<lparr>nonce := 1,
      hash := ''00cc4a388a59200d469795c5b2359c2f4cda506e161a62137f664a8f134349aa''\<rparr>)\<rparr>"

definition snapshot2 :: world where
  "snapshot2 = world2\<lparr>arrays := (arrays world2)(4 := [1, 3]), nextRef := 5\<rparr>"

text \<open>
  Three more runs on the same ledger. In \<open>world3\<close> the block at address 3 of \<open>world2\<close> has
  been passed to \<open>addBlock\<close> a second time. \<open>early0\<close> is the ledger created at time
  \<open>1700000000090\<close>, whose genesis hash \<open>00613a55...\<close> starts with two zeros, and \<open>early1\<close>
  that ledger after \<open>addBlock(getLatestBlock())\<close>. \<open>late1\<close> holds a block built at time
  \<open>1700000007369\<close> with the empty string as \<open>previousHash\<close>, which \<open>addBlock\<close> appends after
  one step of the search (\<open>late2\<close>). In \<open>stuck1\<close> the block of \<open>unsealed1\<close> has been given
  the nonce \<open>2 ^ 53\<close>.
\<close>

definition world3 :: world where
  "world3 = world2\<lparr>blocks := (blocks world2)(3 := (blocks world2 3)\<lparr>previousHash := linked_hash\<rparr>),
                  arrays := (arrays world2)(2 := [1, 3, 3])\<rparr>"

definition early_hash :: string where
  "early_hash = ''00613a557a7aeb7e3eb14a3d1fa31a1c4efd02c1008d980cc002fcf52c2a281e''"

definition early0 :: world where
  "early0 = snd (new_SimpleBlockchain 1700000000090 empty_world)"

definition early1 :: world where
  "early1 = early0\<lparr>blocks := (blocks early0)(1 := (blocks early0 1)\<lparr>previousHash := early_hash\<rparr>),
                  arrays := (arrays early0)(2 := [1, 1])\<rparr>"

definition late_hash :: string where
  "late_hash = ''00a6eba5b8d296fec82b230c37550e3d0c99968a629c84a49573f9aab9ef66b9''"

definition late1 :: world where
  "late1 = snd (new_Block 1 1700000007369 example_payload [] world0)"

definition late2 :: world where
  "late2 = late1\<lparr>blocks := (blocks late1)(3 := (blocks late1 3)
                    \<lparr>previousHash := genesis_hash, nonce := 1, hash := late_hash\<rparr>),
                arrays := (arrays late1)(2 := [1, 3])\<rparr>"

definition stuck1 :: world where
  "stuck1 = assign_field 3 (SetNonce 9007199254740992) unsealed1"

section \<open>Auxiliary facts\<close>

subsection \<open>Digests, the sealing loop and the validation loop\<close>

lemma length_hex32: "length (hex32 w) = 8"
  by (simp add: hex32_def)

lemma length_SHA256: "length (SHA256 s) = 64"
  by (simp add: SHA256_def length_hex32 split: prod.split)

text \<open>The example of the standard.\<close>

lemma SHA256_abc:
  "SHA256 ''abc'' = ''ba7816bf8f01cfea414140de5dae2223b00361a396177a9cb410ff61f20015ad''"
  by code_simp

lemma length_calculateHash: "length (calculateHash b) = 64"
  by (simp add: calculateHash_def digest_def length_SHA256)

lemma substring_0: "substring s 0 d = take (nat d) s"
  by (auto simp: substring_def Let_def min_def max_def)

lemma mineLoop_done: "substring (hash b) 0 d = t \<Longrightarrow> mineLoop d t b = Some b"
  by (subst mineLoop.simps) simp

lemma mineLoop_again: "substring (hash b) 0 d \<noteq> t \<Longrightarrow> mineLoop d t b = mineLoop d t (mine_step b)"
  by (subst mineLoop.simps) simp

lemma mineLoop_reaches:
  "substring (hash ((mine_step ^^ k) b)) 0 d = t \<Longrightarrow>
   \<exists>j \<le> k. mineLoop d t b = Some ((mine_step ^^ j) b) \<and>
     substring (hash ((mine_step ^^ j) b)) 0 d = t \<and>
     (\<forall>i < j. substring (hash ((mine_step ^^ i) b)) 0 d \<noteq> t)"
proof (induction k arbitrary: b)
  case 0
  then show ?case by (simp add: mineLoop_done)
next
  case (Suc k)
  show ?case
  proof (cases "substring (hash b) 0 d = t")
    case True
    then have "mineLoop d t b = Some ((mine_step ^^ 0) b)" by (simp add: mineLoop_done)
    with True show ?thesis by (intro exI [of _ 0]) simp
  next
    case False
    from Suc.prems have "substring (hash ((mine_step ^^ k) (mine_step b))) 0 d = t"
      by (simp add: funpow_swap1)
    from Suc.IH [OF this] obtain j where j: "j \<le> k"
      "mineLoop d t (mine_step b) = Some ((mine_step ^^ j) (mine_step b))"
      "substring (hash ((mine_step ^^ j) (mine_step b))) 0 d = t"
      "\<forall>i < j. substring (hash ((mine_step ^^ i) (mine_step b))) 0 d \<noteq> t"
      by blast
    have "\<forall>i < Suc j. substring (hash ((mine_step ^^ i) b)) 0 d \<noteq> t"
    proof (intro allI impI)
      fix i assume "i < Suc j"
      show "substring (hash ((mine_step ^^ i) b)) 0 d \<noteq> t"
      proof (cases i)
        case 0 with False show ?thesis by simp
      next
        case (Suc i')
        with \<open>i < Suc j\<close> j(4) show ?thesis by (simp add: funpow_swap1)
      qed
    qed
    with j False show ?thesis
      by (intro exI [of _ "Suc j"]) (simp add: mineLoop_again funpow_swap1)
  qed
qed

lemma mineLoop_Some:
  assumes "mineLoop d t b = Some b'"
  shows "\<exists>k. b' = (mine_step ^^ k) b \<and> substring (hash b') 0 d = t \<and>
           (\<forall>i < k. substring (hash ((mine_step ^^ i) b)) 0 d \<noteq> t)"
proof (rule mineLoop.raw_induct [where P = "\<lambda>d t b b'. \<exists>k. b' = (mine_step ^^ k) b \<and>
           substring (hash b') 0 d = t \<and>
           (\<forall>i < k. substring (hash ((mine_step ^^ i) b)) 0 d \<noteq> t)"], goal_cases)
  case (1 f d t b b')
  show ?case
  proof (cases "substring (hash b) 0 d = t")
    case True
    with 1(2) have "b' = (mine_step ^^ 0) b" by simp
    with True show ?thesis by (intro exI [of _ 0]) simp
  next
    case False
    with 1(2) have "f d t (mine_step b) = Some b'" by simp
    from 1(1) [OF this] obtain k where k: "b' = (mine_step ^^ k) (mine_step b)"
      "substring (hash b') 0 d = t"
      "\<forall>i < k. substring (hash ((mine_step ^^ i) (mine_step b))) 0 d \<noteq> t"
      by blast
    have "\<forall>i < Suc k. substring (hash ((mine_step ^^ i) b)) 0 d \<noteq> t"
    proof (intro allI impI)
      fix i assume "i < Suc k"
      show "substring (hash ((mine_step ^^ i) b)) 0 d \<noteq> t"
      proof (cases i)
        case 0 with False show ?thesis by simp
      next
        case (Suc i')
        with \<open>i < Suc k\<close> k(3) show ?thesis by (simp add: funpow_swap1)
      qed
    qed
    with k show ?thesis
      by (intro exI [of _ "Suc k"]) (simp add: funpow_swap1)
  qed
next
  case 2
  show ?case by (rule assms)
qed

lemma mineLoop_returns_iff:
  "(\<exists>b'. mineLoop d t b = Some b') \<longleftrightarrow> (\<exists>k. substring (hash ((mine_step ^^ k) b)) 0 d = t)"
proof
  assume "\<exists>b'. mineLoop d t b = Some b'"
  then obtain b' where "mineLoop d t b = Some b'" ..
  from mineLoop_Some [OF this] show "\<exists>k. substring (hash ((mine_step ^^ k) b)) 0 d = t"
    by auto
next
  assume "\<exists>k. substring (hash ((mine_step ^^ k) b)) 0 d = t"
  then obtain k where "substring (hash ((mine_step ^^ k) b)) 0 d = t" ..
  from mineLoop_reaches [OF this] show "\<exists>b'. mineLoop d t b = Some b'"
    by auto
qed

lemma mineLoop_None:
  "(\<And>k. substring (hash ((mine_step ^^ k) b)) 0 d \<noteq> t) \<Longrightarrow> mineLoop d t b = None"
  using mineLoop_Some [of d t b] by (cases "mineLoop d t b") auto

lemma mine_step_fields [simp]:
  "index (mine_step b) = index b" "timestamp (mine_step b) = timestamp b"
  "data (mine_step b) = data b" "previousHash (mine_step b) = previousHash b"
  "hash (mine_step b) = calculateHash (mine_step b)"
  by (simp_all add: mine_step_def Let_def calculateHash_def)

lemma mine_iter_fields [simp]:
  "index ((mine_step ^^ k) b) = index b" "timestamp ((mine_step ^^ k) b) = timestamp b"
  "data ((mine_step ^^ k) b) = data b" "previousHash ((mine_step ^^ k) b) = previousHash b"
  by (induction k) simp_all

lemma mine_iter_hash:
  "0 < k \<Longrightarrow> hash ((mine_step ^^ k) b) = calculateHash ((mine_step ^^ k) b)"
  by (cases k) simp_all

lemma isChainValid_from_iff:
  "isChainValid_from i c w \<longleftrightarrow>
     (\<forall>j. i \<le> j \<and> j < length c \<longrightarrow>
        hash (blocks w (c ! j)) = calculateHash (blocks w (c ! j)) \<and>
        previousHash (blocks w (c ! j)) = hash (blocks w (c ! (j - 1))))"
proof (induction i c w rule: isChainValid_from.induct)
  case (1 i c w)
  show ?case
  proof (cases "i < length c")
    case False
    then show ?thesis by (subst isChainValid_from.simps) auto
  next
    case True
    show ?thesis
    proof (cases "hash (blocks w (c ! i)) = calculateHash (blocks w (c ! i)) \<and>
        previousHash (blocks w (c ! i)) = hash (blocks w (c ! (i - 1)))")
      case False
      with True show ?thesis by (subst isChainValid_from.simps) (auto simp: Let_def)
    next
      case ok: True
      then have "isChainValid_from i c w = isChainValid_from (i + 1) c w"
        using True by (subst isChainValid_from.simps) (simp add: Let_def)
      also have "\<dots> \<longleftrightarrow> (\<forall>j. i + 1 \<le> j \<and> j < length c \<longrightarrow>
        hash (blocks w (c ! j)) = calculateHash (blocks w (c ! j)) \<and>
        previousHash (blocks w (c ! j)) = hash (blocks w (c ! (j - 1))))"
        using 1 [OF True refl refl] ok by simp
      also have "\<dots> \<longleftrightarrow> (\<forall>j. i \<le> j \<and> j < length c \<longrightarrow>
        hash (blocks w (c ! j)) = calculateHash (blocks w (c ! j)) \<and>
        previousHash (blocks w (c ! j)) = hash (blocks w (c ! (j - 1))))"
        using ok by (metis Suc_eq_plus1 Suc_leI le_neq_implies_less le_trans lessI less_imp_le_nat)
      finally show ?thesis .
    qed
  qed
qed

subsection \<open>Numbers have distinct decimal texts\<close>

lemma digit_char_inj:
  "0 \<le> m \<Longrightarrow> m < 10 \<Longrightarrow> 0 \<le> n \<Longrightarrow> n < 10 \<Longrightarrow> digit_char m = digit_char n \<Longrightarrow> m = n"
proof -
  assume a: "0 \<le> m" "m < 10" "0 \<le> n" "n < 10" "digit_char m = digit_char n"
  then have "(of_char (char_of (48 + m)) :: int) = of_char (char_of (48 + n))"
    by (simp add: digit_char_def)
  with a show ?thesis by (simp add: of_char_of)
qed

lemma digit_char_not_minus: "0 \<le> n \<Longrightarrow> n < 10 \<Longrightarrow> digit_char n \<noteq> CHR ''-''"
proof
  assume a: "0 \<le> n" "n < 10" "digit_char n = CHR ''-''"
  then have "(of_char (char_of (48 + n)) :: int) = of_char (CHR ''-'')"
    by (simp add: digit_char_def)
  with a show False by (simp add: of_char_of)
qed

lemma digits_not_Nil: "digits n \<noteq> []"
  by (subst digits.simps) simp

lemma hd_digits: "0 \<le> n \<Longrightarrow> hd (digits n) \<noteq> CHR ''-''"
proof (induction n rule: digits.induct)
  case (1 n)
  show ?case
  proof (cases "n < 10")
    case True
    with 1(2) show ?thesis by (subst digits.simps) (simp add: digit_char_not_minus)
  next
    case False
    then have "0 \<le> n div 10" by simp
    with 1(1) False have "hd (digits (n div 10)) \<noteq> CHR ''-''" by simp
    with False show ?thesis by (subst digits.simps) (simp add: digits_not_Nil)
  qed
qed

lemma digits_inj: "0 \<le> m \<Longrightarrow> 0 \<le> n \<Longrightarrow> digits m = digits n \<Longrightarrow> m = n"
proof (induction m arbitrary: n rule: digits.induct)
  case (1 m)
  show ?case
  proof (cases "m < 10")
    case m: True
    show ?thesis
    proof (cases "n < 10")
      case True
      with m 1(2,3,4) show ?thesis
        by (auto simp: digits.simps [of m] digits.simps [of n] intro: digit_char_inj)
    next
      case False
      with m 1(4) digits_not_Nil [of "n div 10"] show ?thesis
        by (simp add: digits.simps [of m] digits.simps [of n])
    qed
  next
    case m: False
    show ?thesis
    proof (cases "n < 10")
      case True
      with m 1(4) digits_not_Nil [of "m div 10"] show ?thesis
        by (simp add: digits.simps [of m] digits.simps [of n])
    next
      case False
      with m 1(4) have e: "digits (m div 10) = digits (n div 10)"
        "digit_char (m mod 10) = digit_char (n mod 10)"
        by (simp_all add: digits.simps [of m] digits.simps [of n])
      from m False 1(3) have "m div 10 = n div 10"
        by (intro 1(1) e(1)) simp_all
      moreover have "m mod 10 = n mod 10"
        by (rule digit_char_inj [OF _ _ _ _ e(2)]) simp_all
      ultimately show ?thesis by (metis mult_div_mod_eq)
    qed
  qed
qed

lemma Number_toString_inj: "Number_toString m = Number_toString n \<Longrightarrow> m = n"
proof -
  assume e: "Number_toString m = Number_toString n"
  show ?thesis
  proof (cases "m < 0")
    case m: True
    show ?thesis
    proof (cases "n < 0")
      case True
      with m e have "digits (- m) = digits (- n)" by (simp add: Number_toString_def)
      with m True have "- m = - n" by (intro digits_inj) simp_all
      then show ?thesis by simp
    next
      case False
      with m e have "CHR ''-'' # digits (- m) = digits n" by (simp add: Number_toString_def)
      then have "hd (digits n) = CHR ''-''" by (metis list.sel(1))
      with False hd_digits [of n] show ?thesis by simp
    qed
  next
    case m: False
    show ?thesis
    proof (cases "n < 0")
      case True
      with m e have "digits m = CHR ''-'' # digits (- n)" by (simp add: Number_toString_def)
      then have "hd (digits m) = CHR ''-''" by (metis list.sel(1))
      with m hd_digits [of m] show ?thesis by simp
    next
      case False
      with m e have "digits m = digits n" by (simp add: Number_toString_def)
      with m False show ?thesis by (intro digits_inj) simp_all
    qed
  qed
qed

lemma preimage_of_write_field:
  "changes f b \<Longrightarrow> preimage_of (write_field f b) \<noteq> preimage_of b"
  by (cases f) (auto simp: preimage_of_def preimage_def dest: Number_toString_inj)

lemma calculateHash_preimage_of: "calculateHash b = SHA256 (preimage_of b)"
  by (simp add: calculateHash_def digest_def preimage_of_def)

lemma hash_write_field [simp]: "hash (write_field f b) = hash b"
  by (cases f) simp_all

subsection \<open>Appending\<close>

lemma addBlock_returns_iff:
  "addBlock L r w = Some (Inr (h, w')) \<longleftrightarrow>
     (\<exists>tip b'. getLatestBlock L w = Some tip \<and>
        0 \<le> difficulty L + 1 \<and> difficulty L + 1 \<le> 4294967295 \<and>
        mineLoop (difficulty L) (Array_join_zeros (nat (difficulty L + 1)))
          ((blocks w r)\<lparr>previousHash := hash (blocks w tip)\<rparr>) = Some b' \<and>
        h = hash b' \<and>
        w' = w\<lparr>blocks := (blocks w)(r := b'),
               arrays := (arrays w)(chain L := arrays w (chain L) @ [r])\<rparr>)"
  by (auto simp: addBlock_def mineBlock_def Let_def split: option.splits sum.splits)

lemma addBlock_throws_iff:
  "addBlock L r w = Some (Inl e) \<longleftrightarrow>
     (getLatestBlock L w = None \<and> e = TypeError) \<or>
     (getLatestBlock L w \<noteq> None \<and> (difficulty L + 1 < 0 \<or> 4294967295 < difficulty L + 1) \<and> e = RangeError)"
  by (auto simp: addBlock_def mineBlock_def Let_def split: option.splits sum.splits)

lemma getLatestBlock_Some:
  "getLatestBlock L w = Some tip \<longleftrightarrow>
     arrays w (chain L) \<noteq> [] \<and> tip = last (arrays w (chain L))"
  by (auto simp: getLatestBlock_def Let_def last_conv_nth)

lemma linked_snoc:
  "linked bs \<Longrightarrow> bs \<noteq> [] \<Longrightarrow> previousHash b = hash (last bs) \<Longrightarrow> linked (bs @ [b])"
  unfolding linked_def
proof (intro allI impI)
  fix i
  assume l: "\<forall>i. 1 \<le> i \<and> i < length bs \<longrightarrow> previousHash (bs ! i) = hash (bs ! (i - 1))"
    and ne: "bs \<noteq> []" and p: "previousHash b = hash (last bs)"
    and i: "1 \<le> i \<and> i < length (bs @ [b])"
  show "previousHash ((bs @ [b]) ! i) = hash ((bs @ [b]) ! (i - 1))"
  proof (cases "i < length bs")
    case True
    then have "i - 1 < length bs" by simp
    with True l i show ?thesis by (simp add: nth_append)
  next
    case False
    with i have "i = length bs" by simp
    with ne p show ?thesis by (simp add: nth_append last_conv_nth)
  qed
qed

lemma new_SimpleBlockchain_eq:
  "new_SimpleBlockchain now w =
     (\<lparr>chain = Suc (Suc (nextRef w)), difficulty = 2\<rparr>,
      w\<lparr>blocks := (blocks w)(Suc (nextRef w) :=
            \<lparr>index = 0, timestamp = now, data = JString ''Genesis Block'', previousHash = ''0'',
             nonce = 0, hash = digest 0 ''0'' now (JString ''Genesis Block'') 0\<rparr>),
        arrays := (arrays w)(nextRef w := [], Suc (Suc (nextRef w)) := [Suc (nextRef w)]),
        nextRef := Suc (Suc (Suc (nextRef w)))\<rparr>)"
  by (simp add: new_SimpleBlockchain_def new_Array_def createGenesisBlock_def new_Block_def
      Let_def calculateHash_def)

lemma chainBlocks_addBlock:
  assumes "addBlock L r w = Some (Inr (h, w'))" and "r \<notin> set (arrays w (chain L))"
  shows "\<exists>k. chainBlocks L w' =
           chainBlocks L w @
             [(mine_step ^^ k) ((blocks w r)\<lparr>previousHash := hash (last (chainBlocks L w))\<rparr>)] \<and>
         chainBlocks L w \<noteq> [] \<and>
         arrays w' (chain L) = arrays w (chain L) @ [r] \<and> nextRef w' = nextRef w \<and>
         blocks w' r =
           (mine_step ^^ k) ((blocks w r)\<lparr>previousHash := hash (last (chainBlocks L w))\<rparr>) \<and>
         substring (hash (blocks w' r)) 0 (difficulty L) =
           Array_join_zeros (nat (difficulty L + 1)) \<and>
         (0 < k \<or> hash (blocks w' r) = hash (blocks w r)) \<and>
         h = hash (blocks w' r)"
proof -
  from assms(1) obtain tip b' where
    tip: "getLatestBlock L w = Some tip" and
    m: "mineLoop (difficulty L) (Array_join_zeros (nat (difficulty L + 1)))
          ((blocks w r)\<lparr>previousHash := hash (blocks w tip)\<rparr>) = Some b'" and
    h: "h = hash b'" and
    w': "w' = w\<lparr>blocks := (blocks w)(r := b'),
               arrays := (arrays w)(chain L := arrays w (chain L) @ [r])\<rparr>"
    unfolding addBlock_returns_iff by blast
  from tip have ne: "arrays w (chain L) \<noteq> []" and t: "tip = last (arrays w (chain L))"
    by (simp_all add: getLatestBlock_Some)
  then have lt: "blocks w tip = last (chainBlocks L w)"
    by (simp add: chainBlocks_def last_map)
  from mineLoop_Some [OF m] obtain k where
    k: "b' = (mine_step ^^ k) ((blocks w r)\<lparr>previousHash := hash (blocks w tip)\<rparr>)"
    and s: "substring (hash b') 0 (difficulty L) = Array_join_zeros (nat (difficulty L + 1))"
    by blast
  have "map ((blocks w)(r := b')) (arrays w (chain L)) = map (blocks w) (arrays w (chain L))"
    using assms(2) by (intro map_cong) auto
  then have cb: "chainBlocks L w' = chainBlocks L w @ [b']"
    by (simp add: chainBlocks_def w')
  have b: "blocks w' r = b'" "arrays w' (chain L) = arrays w (chain L) @ [r]"
    "nextRef w' = nextRef w"
    by (simp_all add: w')
  have "0 < k \<or> hash b' = hash (blocks w r)"
    using k by (cases k) simp_all
  with cb b k s h lt ne show ?thesis
    by (intro exI [of _ k]) (simp add: chainBlocks_def)
qed

lemma addBlock_effect:
  assumes "addBlock L r w = Some (Inr (h, w'))"
  shows "\<exists>b'. arrays w (chain L) \<noteq> [] \<and>
           arrays w' (chain L) = arrays w (chain L) @ [r] \<and> nextRef w' = nextRef w \<and>
           blocks w' = (blocks w)(r := b') \<and> index b' = index (blocks w r) \<and>
           previousHash b' = hash (blocks w (last (arrays w (chain L)))) \<and>
           substring (hash b') 0 (difficulty L) = Array_join_zeros (nat (difficulty L + 1)) \<and>
           h = hash b'"
proof -
  from assms obtain tip b' where
    tip: "getLatestBlock L w = Some tip" and
    m: "mineLoop (difficulty L) (Array_join_zeros (nat (difficulty L + 1)))
          ((blocks w r)\<lparr>previousHash := hash (blocks w tip)\<rparr>) = Some b'" and
    h: "h = hash b'" and
    w': "w' = w\<lparr>blocks := (blocks w)(r := b'),
               arrays := (arrays w)(chain L := arrays w (chain L) @ [r])\<rparr>"
    unfolding addBlock_returns_iff by blast
  from tip have ne: "arrays w (chain L) \<noteq> []" and t: "tip = last (arrays w (chain L))"
    by (simp_all add: getLatestBlock_Some)
  from mineLoop_Some [OF m] obtain k where
    k: "b' = (mine_step ^^ k) ((blocks w r)\<lparr>previousHash := hash (blocks w tip)\<rparr>)"
    and s: "substring (hash b') 0 (difficulty L) = Array_join_zeros (nat (difficulty L + 1))"
    by blast
  from k have "index b' = index (blocks w r)" "previousHash b' = hash (blocks w tip)"
    by simp_all
  with ne t s h w' show ?thesis
    by (intro exI [of _ b']) simp
qed

text \<open>
  What holds of every produced state, also when a block of the chain is appended again:
  the difficulty is 2, the first block has index 0, every later position holds a block
  whose hash starts with two zeros, and the first block keeps its \<open>previousHash\<close> as long
  as it is not appended again.
\<close>

lemma produced_base:
  "produced L w \<Longrightarrow>
     difficulty L = 2 \<and> chain L < nextRef w \<and> arrays w (chain L) \<noteq> [] \<and>
     index (blocks w (hd (arrays w (chain L)))) = 0 \<and>
     (\<forall>i. 1 \<le> i \<and> i < length (arrays w (chain L)) \<longrightarrow>
        take 2 (hash (blocks w (arrays w (chain L) ! i))) = ''00'') \<and>
     (hd (arrays w (chain L)) \<notin> set (tl (arrays w (chain L))) \<longrightarrow>
        previousHash (blocks w (hd (arrays w (chain L)))) = ''0'')"
proof (induction rule: produced.induct)
  case (created now w0 L w)
  then show ?case
    by (auto simp: new_SimpleBlockchain_eq)
next
  case (appended L w newBlock h w')
  define c where "c = arrays w (chain L)"
  from addBlock_effect [OF appended(3)] obtain b' where
    ne: "c \<noteq> []" and a: "arrays w' (chain L) = c @ [newBlock]"
    and n: "nextRef w' = nextRef w"
    and b: "blocks w' = (blocks w)(newBlock := b')"
    and i: "index b' = index (blocks w newBlock)"
    and s: "substring (hash b') 0 (difficulty L) = Array_join_zeros (nat (difficulty L + 1))"
    unfolding c_def by blast
  from appended.IH have d: "difficulty L = 2" by simp
  from s d have z: "take 2 (hash b') = ''00''"
    by (simp add: substring_0 Array_join_zeros_def numeral_2_eq_2)
  have hd: "hd (c @ [newBlock]) = hd c" using ne by simp
  have "index (blocks w' (hd c)) = 0"
    using appended.IH i by (auto simp: b c_def)
  moreover have "take 2 (hash (blocks w' ((c @ [newBlock]) ! j))) = ''00''"
    if "1 \<le> j \<and> j < length (c @ [newBlock])" for j
  proof (cases "j < length c")
    case True
    with that appended.IH have "take 2 (hash (blocks w (c ! j))) = ''00''"
      by (simp add: c_def)
    with True z show ?thesis by (simp add: b nth_append)
  next
    case False
    with that have "j = length c" by simp
    with z show ?thesis by (simp add: b nth_append)
  qed
  moreover have "previousHash (blocks w' (hd c)) = ''0''"
    if "hd c \<notin> set (tl (c @ [newBlock]))"
  proof -
    from that ne have "hd c \<noteq> newBlock" "hd c \<notin> set (tl c)" by auto
    with appended.IH show ?thesis by (simp add: b c_def)
  qed
  ultimately show ?case
    using appended.IH d n ne unfolding a hd by (simp add: c_def)
next
  case (untouched L w w')
  have "hd (arrays w (chain L)) \<in> set (arrays w (chain L))"
    using untouched.IH by simp
  then have h: "blocks w' (hd (arrays w (chain L))) = blocks w (hd (arrays w (chain L)))"
    by (rule untouched(4))
  have "blocks w' (arrays w (chain L) ! i) = blocks w (arrays w (chain L) ! i)"
    if "i < length (arrays w (chain L))" for i
    using that by (intro untouched(4)) simp
  with untouched.IH untouched(2) h show ?case
    by (simp add: untouched(3))
qed

text \<open>When no block occurs twice in the chain, every block was new when it was appended.\<close>

lemma produced_linked:
  "produced L w \<Longrightarrow> distinct (arrays w (chain L)) \<longrightarrow> linked (chainBlocks L w)"
proof (induction rule: produced.induct)
  case (created now w0 L w)
  then show ?case
    by (auto simp: new_SimpleBlockchain_eq chainBlocks_def linked_def)
next
  case (appended L w newBlock h w')
  show ?case
  proof
    assume dist: "distinct (arrays w' (chain L))"
    from addBlock_effect [OF appended(3)]
    have a: "arrays w' (chain L) = arrays w (chain L) @ [newBlock]" by blast
    with dist have fresh: "newBlock \<notin> set (arrays w (chain L))"
      and d: "distinct (arrays w (chain L))"
      by simp_all
    from chainBlocks_addBlock [OF appended(3) fresh] obtain k where
      cb: "chainBlocks L w' = chainBlocks L w @
           [(mine_step ^^ k) ((blocks w newBlock)\<lparr>previousHash := hash (last (chainBlocks L w))\<rparr>)]"
      and ne: "chainBlocks L w \<noteq> []"
      by blast
    from appended.IH d have "linked (chainBlocks L w)" by simp
    with ne show "linked (chainBlocks L w')"
      unfolding cb by (intro linked_snoc) simp_all
  qed
next
  case (untouched L w w')
  then have "chainBlocks L w' = chainBlocks L w"
    by (simp add: chainBlocks_def)
  with untouched show ?case by simp
qed

lemma isChainValid_iff_blocks:
  "isChainValid L w \<longleftrightarrow>
     (\<forall>i. 1 \<le> i \<and> i < length (chainBlocks L w) \<longrightarrow>
        hash (chainBlocks L w ! i) = calculateHash (chainBlocks L w ! i) \<and>
        previousHash (chainBlocks L w ! i) = hash (chainBlocks L w ! (i - 1)))"
proof -
  have "\<And>i. 1 \<le> i \<Longrightarrow> i < length (arrays w (chain L)) \<Longrightarrow>
          i - 1 < length (arrays w (chain L))"
    by simp
  then show ?thesis
    unfolding isChainValid_def isChainValid_from_iff chainBlocks_def
    by (auto simp del: One_nat_def)
qed

text \<open>
  Appending keeps a valid chain valid when the stored hash of the new block is the digest
  of its fields with the link that \<open>addBlock\<close> writes, as it is for a block that
  \<open>createSABlock\<close> has just built.
\<close>

lemma addBlock_keeps_valid:
  assumes v: "isChainValid L w" and tip: "getLatestBlock L w = Some tip"
    and fresh: "r \<notin> set (arrays w (chain L))"
    and p: "previousHash (blocks w r) = hash (blocks w tip)"
    and c: "hash (blocks w r) = calculateHash (blocks w r)"
    and a: "addBlock L r w = Some (Inr (h, w'))"
  shows "isChainValid L w'"
proof -
  from tip have t: "blocks w tip = last (chainBlocks L w)"
    by (simp add: getLatestBlock_Some chainBlocks_def last_map)
  from chainBlocks_addBlock [OF a fresh] obtain k where
    cb: "chainBlocks L w' = chainBlocks L w @
           [(mine_step ^^ k) ((blocks w r)\<lparr>previousHash := hash (last (chainBlocks L w))\<rparr>)]"
    and ne: "chainBlocks L w \<noteq> []"
    by blast
  from p t have same: "(blocks w r)\<lparr>previousHash := hash (last (chainBlocks L w))\<rparr> = blocks w r"
    by simp
  define b where "b = (mine_step ^^ k) (blocks w r)"
  have hb: "hash b = calculateHash b"
    using c by (cases k) (simp_all add: b_def)
  have pb: "previousHash b = hash (last (chainBlocks L w))"
    using p t by (simp add: b_def)
  have cb': "chainBlocks L w' = chainBlocks L w @ [b]"
    using cb same by (simp add: b_def)
  show ?thesis
    unfolding isChainValid_iff_blocks cb'
  proof (intro allI impI)
    fix i
    assume i: "1 \<le> i \<and> i < length (chainBlocks L w @ [b])"
    show "hash ((chainBlocks L w @ [b]) ! i) = calculateHash ((chainBlocks L w @ [b]) ! i) \<and>
          previousHash ((chainBlocks L w @ [b]) ! i) = hash ((chainBlocks L w @ [b]) ! (i - 1))"
    proof (cases "i < length (chainBlocks L w)")
      case True
      then have "i - 1 < length (chainBlocks L w)" by simp
      with True i v show ?thesis
        unfolding isChainValid_iff_blocks by (simp add: nth_append)
    next
      case False
      with i have "i = length (chainBlocks L w)" by simp
      with ne hb pb show ?thesis by (simp add: nth_append last_conv_nth)
    qed
  qed
qed

lemma createSABlock_Inr:
  assumes "createSABlock L saRecord now1 now2 w = Inr (r, w1)"
  shows "\<exists>tip. getLatestBlock L w = Some tip \<and> r = nextRef w \<and>
           nextRef w1 = Suc (nextRef w) \<and> arrays w1 = arrays w \<and>
           blocks w1 = (blocks w)(r := blocks w1 r) \<and>
           previousHash (blocks w1 r) = hash (blocks w tip) \<and>
           hash (blocks w1 r) = calculateHash (blocks w1 r)"
  using assms
  by (auto simp: createSABlock_def new_Block_def Let_def calculateHash_def
      split: option.splits)

lemma recorded_valid:
  "recorded L w \<Longrightarrow>
     isChainValid L w \<and> (\<forall>r \<in> set (arrays w (chain L)). r < nextRef w)"
proof (induction rule: recorded.induct)
  case (constructed now w0 L w)
  then show ?case
    by (auto simp: new_SimpleBlockchain_eq isChainValid_iff_blocks chainBlocks_def)
next
  case (witnessed L w saRecord now1 now2 r w1 h w2)
  from createSABlock_Inr [OF witnessed(2)] obtain tip where
    tip: "getLatestBlock L w = Some tip" and r: "r = nextRef w"
    and n: "nextRef w1 = Suc (nextRef w)" and a: "arrays w1 = arrays w"
    and b: "blocks w1 = (blocks w)(r := blocks w1 r)"
    and p: "previousHash (blocks w1 r) = hash (blocks w tip)"
    and c: "hash (blocks w1 r) = calculateHash (blocks w1 r)"
    by blast
  from witnessed.IH r have fresh: "r \<notin> set (arrays w (chain L))" by auto
  from tip have tin: "tip \<in> set (arrays w (chain L))"
    by (simp add: getLatestBlock_Some)
  with fresh have tr: "tip \<noteq> r" by auto
  have same: "map (blocks w1) (arrays w (chain L)) = map (blocks w) (arrays w (chain L))"
    using fresh by (subst b) (intro map_cong, auto)
  then have "chainBlocks L w1 = chainBlocks L w"
    by (simp add: chainBlocks_def a)
  with witnessed.IH have v1: "isChainValid L w1"
    by (simp add: isChainValid_iff_blocks)
  have tip1: "getLatestBlock L w1 = Some tip"
    using tip by (simp add: getLatestBlock_def a)
  have bt: "blocks w1 tip = blocks w tip"
    using tr by (subst b) simp
  have v2: "isChainValid L w2"
    by (rule addBlock_keeps_valid [OF v1 tip1 _ _ c witnessed(3)])
      (use fresh a p bt in simp_all)
  from chainBlocks_addBlock [OF witnessed(3)] fresh a
  have "arrays w2 (chain L) = arrays w1 (chain L) @ [r]" "nextRef w2 = nextRef w1"
    by auto
  with witnessed.IH r n a v2 show ?case by auto
qed

subsection \<open>The worked example, evaluated\<close>

text \<open>SHA-256 of the six hash inputs of the example, computed by rewriting.\<close>

lemma digest_genesis:
  "digest 0 ''0'' 1700000000000 (JString ''Genesis Block'') 0 = genesis_hash"
  by code_simp

lemma digest_linked:
  "digest 1 genesis_hash 1700000006986 example_payload 0 = linked_hash"
  by code_simp

lemma digest_stale:
  "digest 1 [] 1700000006986 example_payload 0 = stale_hash"
  by code_simp

lemma digest_tampered:
  "digest 1 genesis_hash 1700000006986 tampered_payload 0 =
     ''dc37a7193d317abfcec75d9d900c8f08ef7817de5bc14dff436b662d163d9f4f''"
  by code_simp

lemma digest_unsealed:
  "digest 1 [] 1700000007106 example_payload 0 =
     ''f3869b3e32551dd8f55094e325881c2af3161c86474259f9e4f2203934c0c54a''"
  by code_simp

lemma digest_sealed:
  "digest 1 [] 1700000007106 example_payload 1 =
     ''00cc4a388a59200d469795c5b2359c2f4cda506e161a62137f664a8f134349aa''"
  by code_simp

lemma example_ledger_eq: "example_ledger = \<lparr>chain = 2, difficulty = 2\<rparr>"
  by (simp add: example_ledger_def new_SimpleBlockchain_eq empty_world_def numeral_2_eq_2)

lemma world0_eq:
  "world0 = \<lparr>blocks = (blocks empty_world)(1 :=
       \<lparr>index = 0, timestamp = 1700000000000, data = JString ''Genesis Block'',
        previousHash = ''0'', nonce = 0, hash = genesis_hash\<rparr>),
     arrays = (arrays empty_world)(0 := [], 2 := [1]), nextRef = 3\<rparr>"
  by (simp add: world0_def new_SimpleBlockchain_eq empty_world_def numeral_2_eq_2 numeral_3_eq_3
      digest_genesis)

lemma created_example: "new_SimpleBlockchain 1700000000000 empty_world = (example_ledger, world0)"
  by (simp add: example_ledger_def world0_def)

lemma world1_eq:
  "world1 = world0\<lparr>blocks := (blocks world0)(3 :=
       \<lparr>index = 1, timestamp = 1700000006986, data = example_payload,
        previousHash = genesis_hash, nonce = 0, hash = linked_hash\<rparr>),
     nextRef := 4\<rparr>"
  by (simp add: world1_def new_Block_def Let_def calculateHash_def digest_linked world0_eq)

lemma stale1_eq:
  "stale1 = world0\<lparr>blocks := (blocks world0)(3 :=
       \<lparr>index = 1, timestamp = 1700000006986, data = example_payload,
        previousHash = [], nonce = 0, hash = stale_hash\<rparr>),
     nextRef := 4\<rparr>"
  by (simp add: stale1_def new_Block_def Let_def calculateHash_def digest_stale world0_eq)

lemma unsealed1_eq:
  "unsealed1 = world0\<lparr>blocks := (blocks world0)(3 :=
       \<lparr>index = 1, timestamp = 1700000007106, data = example_payload,
        previousHash = [], nonce = 0,
        hash = ''f3869b3e32551dd8f55094e325881c2af3161c86474259f9e4f2203934c0c54a''\<rparr>),
     nextRef := 4\<rparr>"
  by (simp add: unsealed1_def new_Block_def Let_def calculateHash_def digest_unsealed world0_eq)

lemma new_Block_linked:
  "new_Block 1 1700000006986 example_payload (hash (blocks world0 1)) world0 = (3, world1)"
  by (simp add: world1_def new_Block_def Let_def world0_eq)

lemma new_Block_stale:
  "new_Block 1 1700000006986 example_payload [] world0 = (3, stale1)"
  by (simp add: stale1_def new_Block_def Let_def world0_eq)

lemma addBlock_linked: "addBlock example_ledger 3 world1 = Some (Inr (linked_hash, world2))"
  by (simp add: addBlock_def mineBlock_def getLatestBlock_def Let_def example_ledger_eq
      world1_eq world0_eq world2_def Array_join_zeros_def numeral_2_eq_2 mineLoop_done
      substring_0 linked_hash_def)

lemma addBlock_stale: "addBlock example_ledger 3 stale1 = Some (Inr (stale_hash, stale2))"
  by (simp add: addBlock_def mineBlock_def getLatestBlock_def Let_def example_ledger_eq
      stale1_eq world0_eq stale2_def Array_join_zeros_def numeral_2_eq_2 mineLoop_done
      substring_0 stale_hash_def)

lemma chain_world2: "arrays world2 (chain example_ledger) = [1, 3]"
  by (simp add: world2_def example_ledger_eq)

lemma chain_stale2: "arrays stale2 (chain example_ledger) = [1, 3]"
  by (simp add: stale2_def example_ledger_eq)

lemma blocks_world2:
  "blocks world2 1 = \<lparr>index = 0, timestamp = 1700000000000, data = JString ''Genesis Block'',
      previousHash = ''0'', nonce = 0, hash = genesis_hash\<rparr>"
  "blocks world2 (Suc 0) = \<lparr>index = 0, timestamp = 1700000000000,
      data = JString ''Genesis Block'', previousHash = ''0'', nonce = 0, hash = genesis_hash\<rparr>"
  "blocks world2 3 = \<lparr>index = 1, timestamp = 1700000006986, data = example_payload,
      previousHash = genesis_hash, nonce = 0, hash = linked_hash\<rparr>"
  by (simp_all add: world2_def world1_eq world0_eq)

lemma blocks_stale2:
  "blocks stale2 1 = \<lparr>index = 0, timestamp = 1700000000000, data = JString ''Genesis Block'',
      previousHash = ''0'', nonce = 0, hash = genesis_hash\<rparr>"
  "blocks stale2 (Suc 0) = \<lparr>index = 0, timestamp = 1700000000000,
      data = JString ''Genesis Block'', previousHash = ''0'', nonce = 0, hash = genesis_hash\<rparr>"
  "blocks stale2 3 = \<lparr>index = 1, timestamp = 1700000006986, data = example_payload,
      previousHash = genesis_hash, nonce = 0, hash = stale_hash\<rparr>"
  by (simp_all add: stale2_def stale1_eq world0_eq)

lemma chainBlocks_world2:
  "chainBlocks example_ledger world2 = [blocks world2 1, blocks world2 3]"
  by (simp add: chainBlocks_def chain_world2)

lemma produced_world0: "produced example_ledger world0"
  by (rule produced.created [OF created_example])

lemma produced_world1: "produced example_ledger world1"
  by (rule produced.untouched [OF produced_world0])
    (simp_all add: world1_eq world0_eq example_ledger_eq)

lemma produced_world2: "produced example_ledger world2"
  by (rule produced.appended [OF produced_world1 _ addBlock_linked])
    (simp add: world1_eq world0_eq)

lemma produced_stale2: "produced example_ledger stale2"
proof -
  have "produced example_ledger stale1"
    by (rule produced.untouched [OF produced_world0])
      (simp_all add: stale1_eq world0_eq example_ledger_eq)
  then show ?thesis
    by (rule produced.appended [OF _ _ addBlock_stale])
      (simp add: stale1_eq world0_eq)
qed


lemma linked_hash_not_stale: "linked_hash \<noteq> stale_hash" "stale_hash \<noteq> linked_hash"
  by (simp_all add: linked_hash_def stale_hash_def)

lemma isChainValid_two:
  "arrays w (chain L) = [g, r] \<Longrightarrow>
   isChainValid L w \<longleftrightarrow>
     hash (blocks w r) = calculateHash (blocks w r) \<and> previousHash (blocks w r) = hash (blocks w g)"
  by (auto simp: isChainValid_def isChainValid_from.simps [of "Suc 0"]
      isChainValid_from.simps [of "Suc (Suc 0)"] Let_def)

lemma isChainValid_short: "length (arrays w (chain L)) \<le> 1 \<Longrightarrow> isChainValid L w"
  by (simp add: isChainValid_def isChainValid_from.simps [of "Suc 0"])

lemma valid_world2: "isChainValid example_ledger world2"
  by (simp add: isChainValid_two [OF chain_world2] blocks_world2 calculateHash_def digest_linked)

lemma not_valid_stale2: "\<not> isChainValid example_ledger stale2"
  by (simp add: isChainValid_two [OF chain_stale2] blocks_stale2 calculateHash_def digest_linked
      linked_hash_not_stale)

subsection \<open>Facts used by the claims\<close>

lemma digest_early:
  "digest 0 ''0'' 1700000000090 (JString ''Genesis Block'') 0 = early_hash"
  by code_simp

lemma digest_late0:
  "digest 1 [] 1700000007369 example_payload 0 =
     ''4d0f24d3c752967855469c5c0486173357ed277a6a5bb0e4a08491c5852a97c2''"
  by code_simp

lemma digest_late1:
  "digest 1 genesis_hash 1700000007369 example_payload 1 = late_hash"
  by code_simp

lemma digest_stuck:
  "digest 1 genesis_hash 1700000007106 example_payload 9007199254740992 =
     ''70286da6da4133ae606e8219e8e235b0890bbc94885622204f69ad01626b32df''"
  by code_simp

lemma addBlock_again: "addBlock example_ledger 3 world2 = Some (Inr (linked_hash, world3))"
  by (simp add: addBlock_def mineBlock_def getLatestBlock_def Let_def example_ledger_eq
      world3_def world2_def world1_eq world0_eq Array_join_zeros_def numeral_2_eq_2
      mineLoop_done substring_0 linked_hash_def)

lemma produced_world3: "produced example_ledger world3"
  by (rule produced.appended [OF produced_world2 _ addBlock_again])
    (simp add: world2_def world1_eq world0_eq)

lemma chain_world3: "arrays world3 (chain example_ledger) = [1, 3, 3]"
  by (simp add: world3_def example_ledger_eq)

lemma chainBlocks_world3:
  "chainBlocks example_ledger world3 = [blocks world3 1, blocks world3 3, blocks world3 3]"
  by (simp add: chainBlocks_def world3_def example_ledger_eq)

lemma blocks_world3:
  "blocks world3 1 = blocks world2 1"
  "blocks world3 (Suc 0) = blocks world2 1"
  "blocks world3 3 = \<lparr>index = 1, timestamp = 1700000006986, data = example_payload,
      previousHash = linked_hash, nonce = 0, hash = linked_hash\<rparr>"
  by (simp_all add: world3_def blocks_world2)

lemma early0_eq:
  "early0 = \<lparr>blocks = (blocks empty_world)(1 :=
       \<lparr>index = 0, timestamp = 1700000000090, data = JString ''Genesis Block'',
        previousHash = ''0'', nonce = 0, hash = early_hash\<rparr>),
     arrays = (arrays empty_world)(0 := [], 2 := [1]), nextRef = 3\<rparr>"
  by (simp add: early0_def new_SimpleBlockchain_eq empty_world_def numeral_2_eq_2 numeral_3_eq_3
      digest_early)

lemma created_early: "new_SimpleBlockchain 1700000000090 empty_world = (example_ledger, early0)"
  by (simp add: example_ledger_eq early0_def new_SimpleBlockchain_eq empty_world_def
      numeral_2_eq_2)

lemma addBlock_early: "addBlock example_ledger 1 early0 = Some (Inr (early_hash, early1))"
  by (simp add: addBlock_def mineBlock_def getLatestBlock_def Let_def example_ledger_eq
      early1_def early0_eq Array_join_zeros_def numeral_2_eq_2 mineLoop_done substring_0
      early_hash_def)

lemma produced_early1: "produced example_ledger early1"
  by (rule produced.appended [OF produced.created [OF created_early] _ addBlock_early])
    (simp add: early0_eq)

lemma late1_eq:
  "late1 = world0\<lparr>blocks := (blocks world0)(3 :=
       \<lparr>index = 1, timestamp = 1700000007369, data = example_payload,
        previousHash = [], nonce = 0,
        hash = ''4d0f24d3c752967855469c5c0486173357ed277a6a5bb0e4a08491c5852a97c2''\<rparr>),
     nextRef := 4\<rparr>"
  by (simp add: late1_def new_Block_def Let_def calculateHash_def digest_late0 world0_eq)

lemma late_step:
  "mine_step ((blocks late1 3)\<lparr>previousHash := genesis_hash\<rparr>) =
     \<lparr>index = 1, timestamp = 1700000007369, data = example_payload,
      previousHash = genesis_hash, nonce = 1, hash = late_hash\<rparr>"
  by (simp add: late1_eq mine_step_def Let_def increment_def calculateHash_def digest_late1)

lemma mineLoop_late:
  "mineLoop 2 ''00'' ((blocks late1 3)\<lparr>previousHash := genesis_hash\<rparr>) =
     Some \<lparr>index = 1, timestamp = 1700000007369, data = example_payload,
           previousHash = genesis_hash, nonce = 1, hash = late_hash\<rparr>"
proof -
  have "mineLoop 2 ''00'' ((blocks late1 3)\<lparr>previousHash := genesis_hash\<rparr>) =
      mineLoop 2 ''00'' (mine_step ((blocks late1 3)\<lparr>previousHash := genesis_hash\<rparr>))"
    by (rule mineLoop_again) (simp add: late1_eq substring_0 numeral_2_eq_2)
  also have "\<dots> = Some \<lparr>index = 1, timestamp = 1700000007369, data = example_payload,
      previousHash = genesis_hash, nonce = 1, hash = late_hash\<rparr>"
    unfolding late_step
    by (rule mineLoop_done) (simp add: substring_0 numeral_2_eq_2 late_hash_def)
  finally show ?thesis .
qed

lemma addBlock_late: "addBlock example_ledger 3 late1 = Some (Inr (late_hash, late2))"
proof -
  have g: "getLatestBlock example_ledger late1 = Some 1"
    by (simp add: getLatestBlock_def late1_eq world0_eq example_ledger_eq)
  have h: "hash (blocks late1 1) = genesis_hash"
    by (simp add: late1_eq world0_eq)
  have "late1\<lparr>blocks := (blocks late1)(3 :=
        \<lparr>index = 1, timestamp = 1700000007369, data = example_payload,
         previousHash = genesis_hash, nonce = 1, hash = late_hash\<rparr>),
      arrays := (arrays late1)(chain example_ledger := arrays late1 (chain example_ledger) @ [3])\<rparr> =
    late2"
    by (simp add: late2_def late1_eq world0_eq example_ledger_eq)
  moreover have "difficulty example_ledger = 2"
    by (simp add: example_ledger_eq)
  ultimately show ?thesis
    unfolding addBlock_returns_iff
    using g h mineLoop_late
    by (intro exI [of _ 1] exI [of _ "\<lparr>index = 1, timestamp = 1700000007369,
        data = example_payload, previousHash = genesis_hash, nonce = 1, hash = late_hash\<rparr>"])
      (simp add: Array_join_zeros_def numeral_2_eq_2)
qed

lemma blocks_late2:
  "blocks late2 1 = \<lparr>index = 0, timestamp = 1700000000000, data = JString ''Genesis Block'',
      previousHash = ''0'', nonce = 0, hash = genesis_hash\<rparr>"
  "blocks late2 (Suc 0) = \<lparr>index = 0, timestamp = 1700000000000,
      data = JString ''Genesis Block'', previousHash = ''0'', nonce = 0, hash = genesis_hash\<rparr>"
  "blocks late2 3 = \<lparr>index = 1, timestamp = 1700000007369, data = example_payload,
      previousHash = genesis_hash, nonce = 1, hash = late_hash\<rparr>"
  by (simp_all add: late2_def late1_eq world0_eq)

lemma new_Block_unsealed:
  "new_Block 1 1700000007106 example_payload [] world0 = (3, unsealed1)"
  by (simp add: unsealed1_def new_Block_def Let_def world0_eq)

text \<open>
  With the nonce at \<open>2 ^ 53\<close> every step of the search gives the same block, whose hash
  \<open>70286da6...\<close> does not start with two zeros.
\<close>

lemma stuck_search:
  "mineLoop 2 ''00'' ((blocks stuck1 3)\<lparr>previousHash := genesis_hash\<rparr>) = None"
proof (rule mineLoop_None)
  fix k
  define b0 where "b0 = (blocks stuck1 3)\<lparr>previousHash := genesis_hash\<rparr>"
  define b1 where "b1 = b0\<lparr>hash := ''70286da6da4133ae606e8219e8e235b0890bbc94885622204f69ad01626b32df''\<rparr>"
  have b0: "b0 = \<lparr>index = 1, timestamp = 1700000007106, data = example_payload,
      previousHash = genesis_hash, nonce = 9007199254740992,
      hash = ''f3869b3e32551dd8f55094e325881c2af3161c86474259f9e4f2203934c0c54a''\<rparr>"
    by (simp add: b0_def stuck1_def assign_field_def unsealed1_eq)
  have s0: "mine_step b0 = b1"
    by (simp add: b1_def b0 mine_step_def Let_def increment_def calculateHash_def digest_stuck)
  have s1: "mine_step b1 = b1"
    by (simp add: b1_def b0 mine_step_def Let_def increment_def calculateHash_def digest_stuck)
  have it: "(mine_step ^^ n) b1 = b1" for n
    by (induction n) (simp_all add: s1)
  have "substring (hash ((mine_step ^^ k) b0)) 0 2 \<noteq> ''00''"
  proof (cases k)
    case 0
    then show ?thesis by (simp add: b0 substring_0 numeral_2_eq_2)
  next
    case (Suc n)
    then have "(mine_step ^^ k) b0 = b1"
      by (simp add: funpow_swap1 s0 it)
    then show ?thesis by (simp add: b1_def substring_0 numeral_2_eq_2)
  qed
  then show "substring (hash ((mine_step ^^ k) ((blocks stuck1 3)\<lparr>previousHash := genesis_hash\<rparr>))) 0 2 \<noteq> ''00''"
    by (simp add: b0_def)
qed


lemma mineLoop_too_long:
  assumes "length (hash b) \<le> 64" and "64 < d"
  shows "mineLoop d (Array_join_zeros (nat (d + 1))) b = None"
proof (rule mineLoop_None)
  fix k
  have "length (hash ((mine_step ^^ k) b)) \<le> 64"
    using assms(1) by (cases k) (simp_all add: length_calculateHash)
  then have "length (substring (hash ((mine_step ^^ k) b)) 0 d) \<le> 64"
    by (simp add: substring_0)
  moreover have "length (Array_join_zeros (nat (d + 1))) = nat d"
    using assms(2) by (simp add: Array_join_zeros_def)
  ultimately show "substring (hash ((mine_step ^^ k) b)) 0 d \<noteq> Array_join_zeros (nat (d + 1))"
    using assms(2) by (metis nat_le_iff not_less of_nat_numeral)
qed

lemma Array_join_zeros_nat: "0 \<le> d \<Longrightarrow> Array_join_zeros (nat (d + 1)) = replicate (nat d) (CHR ''0'')"
  by (simp add: Array_join_zeros_def nat_add_distrib)

lemma mineBlock_returns_iff:
  assumes "0 \<le> d" and "d \<le> 4294967294"
  shows "mineBlock d this w = Some (Inr w') \<longleftrightarrow>
     (\<exists>b'. mineLoop d (replicate (nat d) (CHR ''0'')) (blocks w this) = Some b' \<and>
           w' = w\<lparr>blocks := (blocks w)(this := b')\<rparr>)"
  using assms by (auto simp: mineBlock_def Array_join_zeros_nat split: option.splits)

lemma json_texts_differ:
  "JSON_stringify tampered_payload \<noteq> JSON_stringify example_payload"
  "JSON_stringify tampered_payload \<noteq> JSON_stringify (JString ''Genesis Block'')"
  by code_simp+

lemma snapshot_example: "getAllBlocks example_ledger world2 = (4, snapshot2)"
  by (simp add: getAllBlocks_def new_Array_def snapshot2_def chain_world2)
    (simp add: world2_def world1_eq)

lemma sealed1_step: "mine_step (blocks unsealed1 3) = blocks sealed1 3"
  by (simp add: sealed1_def unsealed1_eq mine_step_def Let_def increment_def calculateHash_def
      digest_sealed)

section \<open>The claims\<close>

text \<open>
  Claim C1: after any sequence of \<open>addBlock\<close> appends on a freshly constructed ledger,
  with no mutation from outside, \<open>isChainValid\<close> returns true. \<open>addBlock\<close> overwrites
  the \<open>previousHash\<close> of the block it is given but leaves the stored hash as the
  constructor computed it, and \<open>mineBlock\<close> recomputes the hash only if the stored one does
  not yet start with two zeros. The theorem runs the code on such a block: built with the
  empty string as \<open>previousHash\<close>, its hash \<open>0009add8...\<close> already has the two zeros, the
  block is appended with that hash, and validation of the resulting chain fails (the
  digest of the appended fields is \<open>005678e5...\<close>).
\<close>

theorem addBlock_stale_hash_breaks_validity:
  "new_SimpleBlockchain 1700000000000 empty_world = (example_ledger, world0) \<and>
   new_Block 1 1700000006986 example_payload [] world0 = (3, stale1) \<and>
   isChainValid example_ledger stale1 \<and>
   addBlock example_ledger 3 stale1 = Some (Inr (stale_hash, stale2)) \<and>
   produced example_ledger stale2 \<and>
   hash (blocks stale2 3) = stale_hash \<and>
   calculateHash (blocks stale2 3) = linked_hash \<and>
   \<not> isChainValid example_ledger stale2"
proof -
  have "isChainValid example_ledger stale1"
    by (rule isChainValid_short) (simp add: stale1_eq world0_eq example_ledger_eq)
  moreover have "calculateHash (blocks stale2 3) = linked_hash"
    by (simp add: blocks_stale2 calculateHash_def digest_linked)
  ultimately show ?thesis
    by (simp add: created_example new_Block_stale addBlock_stale not_valid_stale2 blocks_stale2
        produced_stale2)
qed

text \<open>
  Claim C2: in a produced chain, changing one of \<open>index\<close>, \<open>timestamp\<close>, \<open>data\<close>,
  \<open>previousHash\<close>, \<open>nonce\<close> of a sealed block in place, without recomputing its hash,
  makes the next \<open>isChainValid\<close> return false. As amended: this holds for every block but
  the first, whose hash the loop of \<open>isChainValid\<close> (it starts at index 1) never
  recomputes, when the stored hash was the digest of the fields, the assignment changes
  the number, the string or the JSON text of the payload, and SHA-256 does not give the
  old and the new hash input the same digest.
\<close>

theorem tampering_detected:
  assumes "1 \<le> i" and "i < length (arrays w (chain L))"
    and "hash (blocks w (arrays w (chain L) ! i)) =
           calculateHash (blocks w (arrays w (chain L) ! i))"
    and "changes f (blocks w (arrays w (chain L) ! i))"
    and "SHA256 (preimage_of (write_field f (blocks w (arrays w (chain L) ! i)))) =
           SHA256 (preimage_of (blocks w (arrays w (chain L) ! i))) \<longrightarrow>
         preimage_of (write_field f (blocks w (arrays w (chain L) ! i))) =
           preimage_of (blocks w (arrays w (chain L) ! i))"
  shows "\<not> isChainValid L (assign_field (arrays w (chain L) ! i) f w)"
proof
  define r where "r = arrays w (chain L) ! i"
  define w' where "w' = assign_field r f w"
  assume "isChainValid L (assign_field (arrays w (chain L) ! i) f w)"
  then have v: "isChainValid L w'" by (simp add: w'_def r_def)
  have a: "arrays w' (chain L) = arrays w (chain L)"
    by (simp add: w'_def assign_field_def)
  have b: "blocks w' r = write_field f (blocks w r)"
    by (simp add: w'_def assign_field_def)
  from v assms(1,2) have "hash (blocks w' r) = calculateHash (blocks w' r)"
    unfolding isChainValid_def isChainValid_from_iff a r_def by simp
  with b assms(3) have "calculateHash (blocks w r) = calculateHash (write_field f (blocks w r))"
    by (simp add: r_def)
  then have "SHA256 (preimage_of (write_field f (blocks w r))) = SHA256 (preimage_of (blocks w r))"
    by (simp add: calculateHash_preimage_of)
  with assms(5) have "preimage_of (write_field f (blocks w r)) = preimage_of (blocks w r)"
    by (simp add: r_def)
  with preimage_of_write_field [OF assms(4)] show False
    by (simp add: r_def)
qed

theorem tampering_detected_witness:
  "(1::nat) \<le> 1 \<and> 1 < length (arrays world2 (chain example_ledger)) \<and>
   arrays world2 (chain example_ledger) ! 1 = 3 \<and>
   hash (blocks world2 3) = calculateHash (blocks world2 3) \<and>
   changes (SetData tampered_payload) (blocks world2 3) \<and>
   SHA256 (preimage_of (write_field (SetData tampered_payload) (blocks world2 3))) \<noteq>
     SHA256 (preimage_of (blocks world2 3)) \<and>
   isChainValid example_ledger world2 \<and>
   \<not> isChainValid example_ledger (assign_field 3 (SetData tampered_payload) world2)"
proof -
  have h: "hash (blocks world2 3) = calculateHash (blocks world2 3)"
    by (simp add: blocks_world2 calculateHash_def digest_linked)
  have c: "changes (SetData tampered_payload) (blocks world2 3)"
    by (simp add: blocks_world2 json_texts_differ)
  have d: "SHA256 (preimage_of (write_field (SetData tampered_payload) (blocks world2 3))) \<noteq>
      SHA256 (preimage_of (blocks world2 3))"
    unfolding calculateHash_preimage_of [symmetric]
    by (simp add: blocks_world2 calculateHash_def digest_linked digest_tampered linked_hash_def)
  have "\<not> isChainValid example_ledger
      (assign_field (arrays world2 (chain example_ledger) ! 1) (SetData tampered_payload) world2)"
    by (rule tampering_detected) (use h c d in \<open>simp_all add: chain_world2\<close>)
  with h c d valid_world2 show ?thesis
    by (simp add: chain_world2)
qed

text \<open>
  The claim as stated fails on the first block: in the valid two-block chain of the
  example, each of the five fields of the genesis block is assigned a different value,
  and \<open>isChainValid\<close> still returns true.
\<close>

theorem genesis_tampering_undetected:
  "produced example_ledger world2 \<and> arrays world2 (chain example_ledger) ! 0 = 1 \<and>
   hash (blocks world2 1) = calculateHash (blocks world2 1) \<and>
   changes (SetIndex 7) (blocks world2 1) \<and>
   isChainValid example_ledger (assign_field 1 (SetIndex 7) world2) \<and>
   changes (SetTimestamp 0) (blocks world2 1) \<and>
   isChainValid example_ledger (assign_field 1 (SetTimestamp 0) world2) \<and>
   changes (SetData tampered_payload) (blocks world2 1) \<and>
   isChainValid example_ledger (assign_field 1 (SetData tampered_payload) world2) \<and>
   changes (SetPreviousHash ''1'') (blocks world2 1) \<and>
   isChainValid example_ledger (assign_field 1 (SetPreviousHash ''1'') world2) \<and>
   changes (SetNonce 5) (blocks world2 1) \<and>
   isChainValid example_ledger (assign_field 1 (SetNonce 5) world2)"
proof -
  have v: "isChainValid example_ledger (assign_field 1 f world2)" for f
  proof -
    have "arrays (assign_field 1 f world2) (chain example_ledger) = [1, 3]"
      by (simp add: assign_field_def chain_world2)
    from isChainValid_two [OF this] show ?thesis
      by (simp add: assign_field_def blocks_world2 calculateHash_def digest_linked)
  qed
  have "hash (blocks world2 1) = calculateHash (blocks world2 1)"
    by (simp add: blocks_world2 calculateHash_def digest_genesis)
  then show ?thesis
    by (simp add: v produced_world2 chain_world2 blocks_world2 json_texts_differ
        del: One_nat_def JSON_stringify.simps)
qed

text \<open>
  Claim C3: in every chain produced by the constructor and \<open>addBlock\<close> appends, each block
  after the first has as \<open>previousHash\<close> the stored hash of the block before it. As
  amended: this holds of every produced chain in which no block object occurs twice, that
  is, when each call of \<open>addBlock\<close> was given a block that was not yet in the chain;
  \<open>addBlock\<close> does not check this, and overwrites the \<open>previousHash\<close> of a block of the
  chain that is passed to it again.
\<close>

theorem chain_linkage:
  assumes "produced L w" and "distinct (arrays w (chain L))"
    and "1 \<le> i" and "i < length (chainBlocks L w)"
  shows "previousHash (chainBlocks L w ! i) = hash (chainBlocks L w ! (i - 1))"
  using produced_linked [OF assms(1)] assms(2,3,4)
  by (simp add: linked_def)

theorem chain_linkage_witness:
  "produced example_ledger world2 \<and> distinct (arrays world2 (chain example_ledger)) \<and>
   (1::nat) \<le> 1 \<and> 1 < length (chainBlocks example_ledger world2) \<and>
   previousHash (chainBlocks example_ledger world2 ! 1) = genesis_hash \<and>
   hash (chainBlocks example_ledger world2 ! (1 - 1)) = genesis_hash"
proof -
  have d: "distinct (arrays world2 (chain example_ledger))"
    by (simp add: chain_world2)
  from chain_linkage [OF produced_world2 d, of 1] d show ?thesis
    by (simp add: produced_world2 chainBlocks_world2 blocks_world2)
qed

text \<open>
  The claim as stated fails when the block just appended is passed to \<open>addBlock\<close> again:
  its \<open>previousHash\<close> becomes its own hash \<open>005678e5...\<close>, the search does not run, and in
  the chain of three the block at index 1 no longer points to the genesis block, whose
  hash is \<open>daa977dd...\<close>.
\<close>

theorem reappended_block_breaks_linkage:
  "produced example_ledger world2 \<and>
   addBlock example_ledger 3 world2 = Some (Inr (linked_hash, world3)) \<and>
   produced example_ledger world3 \<and>
   arrays world3 (chain example_ledger) = [1, 3, 3] \<and>
   previousHash (chainBlocks example_ledger world3 ! 1) = linked_hash \<and>
   hash (chainBlocks example_ledger world3 ! (1 - 1)) = genesis_hash \<and>
   previousHash (chainBlocks example_ledger world3 ! 1) \<noteq>
     hash (chainBlocks example_ledger world3 ! (1 - 1))"
proof -
  have "previousHash (chainBlocks example_ledger world3 ! 1) = linked_hash"
    "hash (chainBlocks example_ledger world3 ! (1 - 1)) = genesis_hash"
    by (simp_all add: chainBlocks_world3 blocks_world3 blocks_world2)
  moreover have "linked_hash \<noteq> genesis_hash"
    by (simp add: linked_hash_def genesis_hash_def)
  ultimately show ?thesis
    using produced_world2 addBlock_again produced_world3 chain_world3 by simp
qed

text \<open>
  Claim C4: \<open>mineBlock\<close> under difficulty \<open>d\<close> always returns a block whose hash starts
  with \<open>d\<close> characters \<open>'0'\<close>; for \<open>d = 0\<close> it returns at once and leaves the nonce at 0.
  As amended: for a difficulty \<open>d\<close> from 0 to 4294967294 (beyond that \<open>Array(d + 1)\<close>
  throws), \<open>mineBlock\<close> returns whenever the stored hash, or the digest for one of the
  nonces that follow, starts with \<open>d\<close> zeros, and it returns the block at the first of
  them; whenever it returns, the hash of the block starts with \<open>d\<close> zeros; for \<open>d = 0\<close> it
  returns at once and changes nothing. There is no bound on the search, which for \<open>d\<close>
  above 64, the length of a digest, never ends.
\<close>

theorem mineBlock_seals:
  assumes "0 \<le> d" and "d \<le> 4294967294"
  shows "(take (nat d) (hash ((mine_step ^^ k) (blocks w this))) = replicate (nat d) (CHR ''0'') \<longrightarrow>
            (\<exists>j \<le> k. mineBlock d this w =
                 Some (Inr (w\<lparr>blocks := (blocks w)(this := (mine_step ^^ j) (blocks w this))\<rparr>)) \<and>
               take (nat d) (hash ((mine_step ^^ j) (blocks w this))) = replicate (nat d) (CHR ''0'') \<and>
               (\<forall>i < j. take (nat d) (hash ((mine_step ^^ i) (blocks w this))) \<noteq>
                   replicate (nat d) (CHR ''0'')))) \<and>
         (\<forall>w'. mineBlock d this w = Some (Inr w') \<longrightarrow>
            take (nat d) (hash (blocks w' this)) = replicate (nat d) (CHR ''0'')) \<and>
         (d = 0 \<longrightarrow> mineBlock d this w = Some (Inr w))"
proof (intro conjI impI allI)
  assume "take (nat d) (hash ((mine_step ^^ k) (blocks w this))) = replicate (nat d) (CHR ''0'')"
  then have "substring (hash ((mine_step ^^ k) (blocks w this))) 0 d = replicate (nat d) (CHR ''0'')"
    by (simp add: substring_0)
  from mineLoop_reaches [OF this] obtain j where j: "j \<le> k"
    "mineLoop d (replicate (nat d) (CHR ''0'')) (blocks w this) =
       Some ((mine_step ^^ j) (blocks w this))"
    "substring (hash ((mine_step ^^ j) (blocks w this))) 0 d = replicate (nat d) (CHR ''0'')"
    "\<forall>i < j. substring (hash ((mine_step ^^ i) (blocks w this))) 0 d \<noteq>
        replicate (nat d) (CHR ''0'')"
    by blast
  from j(2) have "mineBlock d this w =
      Some (Inr (w\<lparr>blocks := (blocks w)(this := (mine_step ^^ j) (blocks w this))\<rparr>))"
    by (simp add: mineBlock_returns_iff [OF assms])
  with j(1,3,4) show "\<exists>j \<le> k. mineBlock d this w =
         Some (Inr (w\<lparr>blocks := (blocks w)(this := (mine_step ^^ j) (blocks w this))\<rparr>)) \<and>
       take (nat d) (hash ((mine_step ^^ j) (blocks w this))) = replicate (nat d) (CHR ''0'') \<and>
       (\<forall>i < j. take (nat d) (hash ((mine_step ^^ i) (blocks w this))) \<noteq>
           replicate (nat d) (CHR ''0''))"
    by (intro exI [of _ j]) (simp add: substring_0)
next
  fix w'
  assume "mineBlock d this w = Some (Inr w')"
  then obtain b' where b': "mineLoop d (replicate (nat d) (CHR ''0'')) (blocks w this) = Some b'"
    "w' = w\<lparr>blocks := (blocks w)(this := b')\<rparr>"
    by (auto simp: mineBlock_returns_iff [OF assms])
  from mineLoop_Some [OF b'(1)] b'(2)
  show "take (nat d) (hash (blocks w' this)) = replicate (nat d) (CHR ''0'')"
    by (auto simp: substring_0)
next
  assume "d = 0"
  then have "mineLoop d (replicate (nat d) (CHR ''0'')) (blocks w this) = Some (blocks w this)"
    by (simp add: mineLoop_done substring_0)
  then show "mineBlock d this w = Some (Inr w)"
    by (simp add: mineBlock_returns_iff [OF assms])
qed

text \<open>
  The witness seals a block whose first hash \<open>f3869b3e...\<close> does not start with two zeros:
  one step of the loop takes the nonce to 1 and the hash to \<open>00cc4a38...\<close>. At difficulty
  0 the same block is returned untouched.
\<close>

theorem mineBlock_seals_witness:
  "(0::int) \<le> 2 \<and> (2::int) \<le> 4294967294 \<and>
   take (nat 2) (hash ((mine_step ^^ 1) (blocks unsealed1 3))) = replicate (nat 2) (CHR ''0'') \<and>
   take (nat 2) (hash (blocks unsealed1 3)) \<noteq> replicate (nat 2) (CHR ''0'') \<and>
   mineBlock 2 3 unsealed1 = Some (Inr sealed1) \<and>
   nonce (blocks unsealed1 3) = 0 \<and> nonce (blocks sealed1 3) = 1 \<and>
   take 2 (hash (blocks sealed1 3)) = ''00'' \<and>
   mineBlock 0 3 unsealed1 = Some (Inr unsealed1)"
proof -
  have s: "(mine_step ^^ 1) (blocks unsealed1 3) = blocks sealed1 3"
    by (simp add: sealed1_step)
  have h1: "take (nat 2) (hash ((mine_step ^^ 1) (blocks unsealed1 3))) =
      replicate (nat 2) (CHR ''0'')"
    unfolding s by (simp add: sealed1_def numeral_2_eq_2)
  have h0: "take (nat 2) (hash (blocks unsealed1 3)) \<noteq> replicate (nat 2) (CHR ''0'')"
    by (simp add: unsealed1_eq numeral_2_eq_2)
  have w: "unsealed1\<lparr>blocks := (blocks unsealed1)(3 := blocks sealed1 3)\<rparr> = sealed1"
    by (simp add: sealed1_def)
  from mineBlock_seals [of 2 1 unsealed1 3] h1 obtain j where j: "j \<le> 1"
    "mineBlock 2 3 unsealed1 =
       Some (Inr (unsealed1\<lparr>blocks := (blocks unsealed1)(3 := (mine_step ^^ j) (blocks unsealed1 3))\<rparr>))"
    "take (nat 2) (hash ((mine_step ^^ j) (blocks unsealed1 3))) = replicate (nat 2) (CHR ''0'')"
    by auto
  from j(3) h0 have "j \<noteq> 0" by (intro notI) simp
  with j(1) have "j = 1" by simp
  with j(2) s w have m: "mineBlock 2 3 unsealed1 = Some (Inr sealed1)" by simp
  from mineBlock_seals [of 0 0 unsealed1 3]
  have z: "mineBlock 0 3 unsealed1 = Some (Inr unsealed1)" by simp
  have "nonce (blocks unsealed1 3) = 0" "nonce (blocks sealed1 3) = 1"
    "take 2 (hash (blocks sealed1 3)) = ''00''"
    by (simp_all add: unsealed1_eq sealed1_def numeral_2_eq_2)
  with h1 h0 m z show ?thesis by simp
qed

text \<open>
  The claim as stated fails at difficulty 65: a digest has 64 characters, so no hash ever
  starts with 65 zeros and the call on the freshly built block of the example never
  returns.
\<close>

theorem mineBlock_never_returns:
  "new_Block 1 1700000006986 example_payload (hash (blocks world0 1)) world0 = (3, world1) \<and>
   mineBlock 65 3 world1 = None"
proof -
  have "length (hash (blocks world1 3)) \<le> 64"
    by (simp add: world1_eq linked_hash_def)
  from mineLoop_too_long [OF this, of 65] show ?thesis
    by (simp add: mineBlock_def new_Block_linked del: One_nat_def)
qed

text \<open>
  Claim C5: \<open>isChainValid\<close> walks the chain from index 1 to the end; for each block it
  compares the recomputed hash with the stored one and the \<open>previousHash\<close> with the stored
  hash of the block before; it returns false at the first block that fails either test
  and true when none does, in particular for a chain of no block or one block.
\<close>

theorem isChainValid_walk:
  "(isChainValid L w \<longleftrightarrow>
      (\<forall>i. 1 \<le> i \<and> i < length (arrays w (chain L)) \<longrightarrow>
         hash (blocks w (arrays w (chain L) ! i)) =
           calculateHash (blocks w (arrays w (chain L) ! i)) \<and>
         previousHash (blocks w (arrays w (chain L) ! i)) =
           hash (blocks w (arrays w (chain L) ! (i - 1))))) \<and>
   (length (arrays w (chain L)) \<le> 1 \<longrightarrow> isChainValid L w)"
  by (simp add: isChainValid_short) (simp add: isChainValid_def isChainValid_from_iff)

theorem isChainValid_walk_witness:
  "isChainValid example_ledger world2 \<and> \<not> isChainValid example_ledger stale2 \<and>
   (1::nat) \<le> 1 \<and> 1 < length (arrays world2 (chain example_ledger)) \<and>
   hash (blocks world2 (arrays world2 (chain example_ledger) ! 1)) = linked_hash \<and>
   calculateHash (blocks world2 (arrays world2 (chain example_ledger) ! 1)) = linked_hash \<and>
   previousHash (blocks world2 (arrays world2 (chain example_ledger) ! 1)) = genesis_hash \<and>
   hash (blocks world2 (arrays world2 (chain example_ledger) ! (1 - 1))) = genesis_hash \<and>
   length (arrays world0 (chain example_ledger)) \<le> 1 \<and> isChainValid example_ledger world0"
proof -
  from isChainValid_walk [of example_ledger world2] valid_world2
  have "\<forall>i. 1 \<le> i \<and> i < length (arrays world2 (chain example_ledger)) \<longrightarrow>
      hash (blocks world2 (arrays world2 (chain example_ledger) ! i)) =
        calculateHash (blocks world2 (arrays world2 (chain example_ledger) ! i)) \<and>
      previousHash (blocks world2 (arrays world2 (chain example_ledger) ! i)) =
        hash (blocks world2 (arrays world2 (chain example_ledger) ! (i - 1)))"
    by blast
  from this [rule_format, of 1]
  have "hash (blocks world2 (arrays world2 (chain example_ledger) ! 1)) =
      calculateHash (blocks world2 (arrays world2 (chain example_ledger) ! 1)) \<and>
    previousHash (blocks world2 (arrays world2 (chain example_ledger) ! 1)) =
      hash (blocks world2 (arrays world2 (chain example_ledger) ! (1 - 1)))"
    by (simp add: chain_world2)
  moreover have "length (arrays world0 (chain example_ledger)) \<le> 1"
    by (simp add: world0_eq example_ledger_eq)
  moreover from this isChainValid_walk [of example_ledger world0]
  have "isChainValid example_ledger world0" by blast
  ultimately show ?thesis
    using valid_world2 not_valid_stale2
    by (simp add: chain_world2 blocks_world2)
qed

text \<open>
  Claim C6: \<open>getAllBlocks\<close> returns a defensive, read-only copy of the block sequence, so
  that callers cannot change the state of the ledger through what it returns. As amended:
  \<open>getAllBlocks\<close> returns a new array that holds the references of the chain's blocks in
  order and leaves the heap as it was, so whatever the caller does to that array leaves
  the chain of the ledger alone; the elements are the ledger's own block objects, not
  copies.
\<close>

theorem getAllBlocks_new_array:
  assumes "produced L w" and "getAllBlocks L w = (a, w')"
  shows "a = nextRef w \<and> a \<noteq> chain L \<and> arrays w' a = arrays w (chain L) \<and>
         blocks w' = blocks w \<and> arrays w' (chain L) = arrays w (chain L) \<and>
         (\<forall>xs. arrays (write_array a xs w') (chain L) = arrays w (chain L) \<and>
               chainBlocks L (write_array a xs w') = chainBlocks L w \<and>
               isChainValid L (write_array a xs w') = isChainValid L w)"
proof -
  from produced_base [OF assms(1)] have "chain L < nextRef w"
    by simp
  with assms(2) show ?thesis
    by (auto simp: getAllBlocks_def new_Array_def write_array_def chainBlocks_def
        isChainValid_iff_blocks)
qed

theorem getAllBlocks_new_array_witness:
  "produced example_ledger world2 \<and> getAllBlocks example_ledger world2 = (4, snapshot2) \<and>
   4 \<noteq> chain example_ledger \<and> arrays snapshot2 4 = [1, 3] \<and>
   arrays (write_array 4 [] snapshot2) (chain example_ledger) = [1, 3] \<and>
   isChainValid example_ledger (write_array 4 [] snapshot2)"
  using getAllBlocks_new_array [OF produced_world2 snapshot_example] valid_world2
  by (simp add: produced_world2 snapshot_example chain_world2)

text \<open>
  The claim as stated fails: the caller takes the second element of the returned array and
  assigns its \<open>data\<close>; the block of the ledger's chain has changed, and the chain, valid
  before, no longer validates.
\<close>

theorem getAllBlocks_shares_blocks:
  "getAllBlocks example_ledger world2 = (4, snapshot2) \<and>
   arrays snapshot2 4 ! 1 = 3 \<and>
   isChainValid example_ledger snapshot2 \<and>
   data (chainBlocks example_ledger snapshot2 ! 1) = example_payload \<and>
   data (chainBlocks example_ledger
           (assign_field (arrays snapshot2 4 ! 1) (SetData tampered_payload) snapshot2) ! 1) =
     tampered_payload \<and>
   \<not> isChainValid example_ledger
        (assign_field (arrays snapshot2 4 ! 1) (SetData tampered_payload) snapshot2)"
proof -
  have c: "arrays snapshot2 (chain example_ledger) = [1, 3]" "arrays snapshot2 4 = [1, 3]"
    by (simp_all add: snapshot2_def world2_def example_ledger_eq)
  have b: "blocks snapshot2 = blocks world2"
    by (simp add: snapshot2_def)
  have v: "isChainValid example_ledger snapshot2"
    using valid_world2
    by (simp add: isChainValid_two [OF c(1)] isChainValid_two [OF chain_world2] b)
  have c': "arrays (assign_field 3 (SetData tampered_payload) snapshot2) (chain example_ledger) =
      [1, 3]"
    by (simp add: assign_field_def c)
  have n: "\<not> isChainValid example_ledger (assign_field 3 (SetData tampered_payload) snapshot2)"
    unfolding isChainValid_two [OF c']
    by (simp add: assign_field_def b blocks_world2 calculateHash_def digest_tampered
        linked_hash_def)
  have "data (chainBlocks example_ledger snapshot2 ! 1) = example_payload"
    "data (chainBlocks example_ledger
         (assign_field 3 (SetData tampered_payload) snapshot2) ! 1) = tampered_payload"
    by (simp_all add: chainBlocks_def c c' b blocks_world2 assign_field_def)
  with v n show ?thesis
    by (simp add: snapshot_example c)
qed

text \<open>
  Claim C7: the first block of every ledger has \<open>index\<close> 0 and \<open>previousHash\<close> \<open>"0"\<close>. As
  amended: the first block of every ledger has \<open>index\<close> 0, and it has \<open>previousHash\<close> \<open>"0"\<close>
  as long as the genesis block object has not been passed to \<open>addBlock\<close>, that is, as
  long as it occurs in the chain only once; \<open>addBlock\<close> overwrites the \<open>previousHash\<close> of
  whatever block it is given.
\<close>

theorem genesis_shape:
  assumes "produced L w"
  shows "chainBlocks L w \<noteq> [] \<and> index (chainBlocks L w ! 0) = 0 \<and>
         (arrays w (chain L) ! 0 \<notin> set (tl (arrays w (chain L))) \<longrightarrow>
            previousHash (chainBlocks L w ! 0) = ''0'')"
  using produced_base [OF assms]
  by (cases "arrays w (chain L)") (simp_all add: chainBlocks_def)

theorem genesis_shape_witness:
  "produced example_ledger world2 \<and> length (chainBlocks example_ledger world2) = 2 \<and>
   arrays world2 (chain example_ledger) ! 0 = 1 \<and>
   tl (arrays world2 (chain example_ledger)) = [3] \<and>
   index (chainBlocks example_ledger world2 ! 0) = 0 \<and>
   previousHash (chainBlocks example_ledger world2 ! 0) = ''0'' \<and>
   data (chainBlocks example_ledger world2 ! 0) = JString ''Genesis Block''"
  using genesis_shape [OF produced_world2]
  by (simp add: produced_world2 chainBlocks_world2 blocks_world2 chain_world2)

text \<open>
  The claim as stated fails when the genesis block itself is passed to \<open>addBlock\<close>: on the
  ledger created at time \<open>1700000000090\<close>, \<open>addBlock(getLatestBlock())\<close> returns, and the
  first block of the chain then has the genesis hash \<open>00613a55...\<close> as its \<open>previousHash\<close>.
\<close>

theorem reappended_genesis_loses_sentinel:
  "new_SimpleBlockchain 1700000000090 empty_world = (example_ledger, early0) \<and>
   getLatestBlock example_ledger early0 = Some 1 \<and>
   previousHash (chainBlocks example_ledger early0 ! 0) = ''0'' \<and>
   addBlock example_ledger 1 early0 = Some (Inr (early_hash, early1)) \<and>
   produced example_ledger early1 \<and>
   arrays early1 (chain example_ledger) = [1, 1] \<and>
   previousHash (chainBlocks example_ledger early1 ! 0) = early_hash \<and>
   previousHash (chainBlocks example_ledger early1 ! 0) \<noteq> ''0''"
proof -
  have "getLatestBlock example_ledger early0 = Some 1"
    by (simp add: getLatestBlock_def early0_eq example_ledger_eq)
  moreover have "previousHash (chainBlocks example_ledger early0 ! 0) = ''0''"
    by (simp add: chainBlocks_def early0_eq example_ledger_eq)
  moreover have "arrays early1 (chain example_ledger) = [1, 1]"
    by (simp add: early1_def example_ledger_eq)
  moreover have "previousHash (chainBlocks example_ledger early1 ! 0) = early_hash"
    by (simp add: chainBlocks_def early1_def example_ledger_eq)
  moreover have "early_hash \<noteq> ''0''"
    by (simp add: early_hash_def)
  ultimately show ?thesis
    using created_early addBlock_early produced_early1 by simp
qed

text \<open>
  Claim C8: \<open>getBlockByHash\<close> never raises, for any string: it scans the chain from the
  start and returns the first block whose stored hash equals the argument, or \<open>null\<close>
  when no block of the chain has that hash.
\<close>

theorem getBlockByHash_first_match:
  "(getBlockByHash L h w = None \<longleftrightarrow>
      (\<forall>r \<in> set (arrays w (chain L)). hash (blocks w r) \<noteq> h)) \<and>
   (\<forall>r. getBlockByHash L h w = Some r \<longleftrightarrow>
      (\<exists>i < length (arrays w (chain L)). arrays w (chain L) ! i = r \<and> hash (blocks w r) = h \<and>
         (\<forall>j < i. hash (blocks w (arrays w (chain L) ! j)) \<noteq> h)))"
  by (auto simp: getBlockByHash_def find_None_iff find_Some_iff)

theorem getBlockByHash_first_match_witness:
  "getBlockByHash example_ledger
     ''deadbeefdeadbeefdeadbeefdeadbeefdeadbeefdeadbeefdeadbeefdeadbeef'' world2 = None \<and>
   arrays world2 (chain example_ledger) = [1, 3] \<and>
   hash (blocks world2 1) \<noteq>
     ''deadbeefdeadbeefdeadbeefdeadbeefdeadbeefdeadbeefdeadbeefdeadbeef'' \<and>
   hash (blocks world2 3) \<noteq>
     ''deadbeefdeadbeefdeadbeefdeadbeefdeadbeefdeadbeefdeadbeefdeadbeef'' \<and>
   getBlockByHash example_ledger linked_hash world2 = Some 3 \<and>
   (1::nat) < length (arrays world2 (chain example_ledger)) \<and>
   arrays world2 (chain example_ledger) ! 1 = 3 \<and> hash (blocks world2 3) = linked_hash \<and>
   hash (blocks world2 (arrays world2 (chain example_ledger) ! 0)) \<noteq> linked_hash"
proof -
  have a: "\<forall>r \<in> set (arrays world2 (chain example_ledger)). hash (blocks world2 r) \<noteq>
      ''deadbeefdeadbeefdeadbeefdeadbeefdeadbeefdeadbeefdeadbeefdeadbeef''"
    by (simp add: chain_world2 blocks_world2 genesis_hash_def linked_hash_def)
  have b: "\<exists>i < length (arrays world2 (chain example_ledger)).
      arrays world2 (chain example_ledger) ! i = 3 \<and> hash (blocks world2 3) = linked_hash \<and>
      (\<forall>j < i. hash (blocks world2 (arrays world2 (chain example_ledger) ! j)) \<noteq> linked_hash)"
    by (intro exI [of _ 1])
      (simp add: chain_world2 blocks_world2 genesis_hash_def linked_hash_def)
  from getBlockByHash_first_match [of example_ledger _ world2] a b
  have "getBlockByHash example_ledger
      ''deadbeefdeadbeefdeadbeefdeadbeefdeadbeefdeadbeefdeadbeefdeadbeef'' world2 = None"
    "getBlockByHash example_ledger linked_hash world2 = Some 3"
    by blast+
  with a show ?thesis
    by (simp add: chain_world2 blocks_world2 genesis_hash_def linked_hash_def)
qed

text \<open>
  Claim C9: in every chain produced by the constructor and \<open>addBlock\<close> appends, the hash of
  each block after the first starts with as many characters \<open>'0'\<close> as the difficulty of
  the ledger, which is 2; the genesis block is exempt.
\<close>

theorem proof_of_work:
  assumes "produced L w" and "1 \<le> i" and "i < length (chainBlocks L w)"
  shows "difficulty L = 2 \<and>
         nat (difficulty L) \<le> length (hash (chainBlocks L w ! i)) \<and>
         take (nat (difficulty L)) (hash (chainBlocks L w ! i)) =
           replicate (nat (difficulty L)) (CHR ''0'')"
proof -
  from assms(3) have l: "i < length (arrays w (chain L))"
    by (simp add: chainBlocks_def)
  from produced_base [OF assms(1)] assms(2) l
  have d: "difficulty L = 2"
    and t: "take 2 (hash (blocks w (arrays w (chain L) ! i))) = ''00''"
    by simp_all
  from t l have t': "take 2 (hash (chainBlocks L w ! i)) = ''00''"
    by (simp add: chainBlocks_def)
  then have "length (take 2 (hash (chainBlocks L w ! i))) = 2"
    by simp
  then have "2 \<le> length (hash (chainBlocks L w ! i))"
    by simp
  with d t' show ?thesis by (simp add: numeral_2_eq_2)
qed

text \<open>
  In the example the hash of the appended block is \<open>005678e5...\<close>; that of the genesis
  block, which is never mined, is \<open>daa977dd...\<close>.
\<close>

theorem proof_of_work_witness:
  "produced example_ledger world2 \<and> (1::nat) \<le> 1 \<and>
   1 < length (chainBlocks example_ledger world2) \<and> difficulty example_ledger = 2 \<and>
   take 2 (hash (chainBlocks example_ledger world2 ! 1)) = ''00'' \<and>
   take 2 (hash (chainBlocks example_ledger world2 ! 0)) = ''da''"
  using proof_of_work [OF produced_world2, of 1]
  by (simp add: produced_world2 chainBlocks_world2 blocks_world2 genesis_hash_def
      linked_hash_def numeral_2_eq_2)

text \<open>
  Claim C10: whatever \<open>previousHash\<close> the block passed to \<open>addBlock\<close> was built with,
  \<open>addBlock\<close> overwrites it with the stored hash of the current last block before mining
  and appending, and returns the hash that the appended block has after mining. As
  amended: on a ledger that has a last block \<open>addBlock\<close> never throws, and it returns
  exactly when the search of \<open>mineBlock\<close>, started from the given block with its
  \<open>previousHash\<close> overwritten by the stored hash of the last block, reaches a hash that
  starts with two zeros; whenever it returns, the block holds that \<open>previousHash\<close>, has
  been appended to the chain, and its hash after mining is the value returned. The
  search has no bound, and for some blocks \<open>addBlock\<close> does not return.
\<close>

theorem addBlock_relinks:
  assumes "getLatestBlock L w = Some tip" and "difficulty L = 2"
  shows "((\<exists>h w'. addBlock L newBlock w = Some (Inr (h, w'))) \<longleftrightarrow>
            (\<exists>k. take 2 (hash ((mine_step ^^ k)
               ((blocks w newBlock)\<lparr>previousHash := hash (blocks w tip)\<rparr>))) = ''00'')) \<and>
         (\<forall>h w'. addBlock L newBlock w = Some (Inr (h, w')) \<longrightarrow>
            (\<exists>j. blocks w' newBlock =
               (mine_step ^^ j) ((blocks w newBlock)\<lparr>previousHash := hash (blocks w tip)\<rparr>)) \<and>
            previousHash (blocks w' newBlock) = hash (blocks w tip) \<and>
            arrays w' (chain L) = arrays w (chain L) @ [newBlock] \<and>
            h = hash (blocks w' newBlock) \<and> take 2 h = ''00'') \<and>
         (\<forall>e. addBlock L newBlock w \<noteq> Some (Inl e))"
proof -
  define b0 where "b0 = (blocks w newBlock)\<lparr>previousHash := hash (blocks w tip)\<rparr>"
  have z: "Array_join_zeros (nat (difficulty L + 1)) = ''00''"
    by (simp add: assms(2) Array_join_zeros_def numeral_2_eq_2)
  have r: "addBlock L newBlock w = Some (Inr (h, w')) \<longleftrightarrow>
      (\<exists>b'. mineLoop 2 ''00'' b0 = Some b' \<and> h = hash b' \<and>
         w' = w\<lparr>blocks := (blocks w)(newBlock := b'),
                arrays := (arrays w)(chain L := arrays w (chain L) @ [newBlock])\<rparr>)" for h w'
    unfolding addBlock_returns_iff z using assms by (auto simp: b0_def)
  have "(\<exists>h w'. addBlock L newBlock w = Some (Inr (h, w'))) \<longleftrightarrow>
      (\<exists>b'. mineLoop 2 ''00'' b0 = Some b')"
    unfolding r by blast
  also have "\<dots> \<longleftrightarrow> (\<exists>k. take 2 (hash ((mine_step ^^ k) b0)) = ''00'')"
    unfolding mineLoop_returns_iff by (simp add: substring_0)
  finally have a: "(\<exists>h w'. addBlock L newBlock w = Some (Inr (h, w'))) \<longleftrightarrow>
      (\<exists>k. take 2 (hash ((mine_step ^^ k) b0)) = ''00'')" .
  have b: "(\<exists>j. blocks w' newBlock = (mine_step ^^ j) b0) \<and>
      previousHash (blocks w' newBlock) = hash (blocks w tip) \<and>
      arrays w' (chain L) = arrays w (chain L) @ [newBlock] \<and>
      h = hash (blocks w' newBlock) \<and> take 2 h = ''00''"
    if "addBlock L newBlock w = Some (Inr (h, w'))" for h w'
  proof -
    from that obtain b' where b': "mineLoop 2 ''00'' b0 = Some b'" "h = hash b'"
      "w' = w\<lparr>blocks := (blocks w)(newBlock := b'),
             arrays := (arrays w)(chain L := arrays w (chain L) @ [newBlock])\<rparr>"
      unfolding r by blast
    from mineLoop_Some [OF b'(1)] obtain j where
      j: "b' = (mine_step ^^ j) b0" "substring (hash b') 0 2 = ''00''"
      by blast
    have "previousHash b' = hash (blocks w tip)"
      by (simp add: j(1) b0_def)
    with b'(2,3) j show ?thesis
      by (auto simp: substring_0)
  qed
  have c: "addBlock L newBlock w \<noteq> Some (Inl e)" for e
    unfolding addBlock_throws_iff using assms by simp
  from a b c show ?thesis
    unfolding b0_def by blast
qed

text \<open>
  The witness passes a block that was built with the empty string as \<open>previousHash\<close> and
  whose hash \<open>4d0f24d3...\<close> does not start with two zeros: \<open>addBlock\<close> writes the hash of
  the genesis block into \<open>previousHash\<close>, one step of the search takes the nonce to 1 and
  the hash to \<open>00a6eba5...\<close>, and that hash is returned and stored in the appended block;
  the chain validates.
\<close>

theorem addBlock_relinks_witness:
  "getLatestBlock example_ledger late1 = Some 1 \<and> difficulty example_ledger = 2 \<and>
   previousHash (blocks late1 3) = [] \<and> take 2 (hash (blocks late1 3)) = ''4d'' \<and>
   hash (blocks late1 1) = genesis_hash \<and>
   take 2 (hash ((mine_step ^^ 1)
     ((blocks late1 3)\<lparr>previousHash := hash (blocks late1 1)\<rparr>))) = ''00'' \<and>
   addBlock example_ledger 3 late1 = Some (Inr (late_hash, late2)) \<and>
   previousHash (blocks late2 3) = genesis_hash \<and> nonce (blocks late2 3) = 1 \<and>
   arrays late2 (chain example_ledger) = arrays late1 (chain example_ledger) @ [3] \<and>
   hash (blocks late2 3) = late_hash \<and> take 2 late_hash = ''00'' \<and>
   isChainValid example_ledger late2"
proof -
  have t: "getLatestBlock example_ledger late1 = Some 1"
    by (simp add: getLatestBlock_def late1_eq world0_eq example_ledger_eq)
  have d: "difficulty example_ledger = 2"
    by (simp add: example_ledger_eq)
  have g: "hash (blocks late1 1) = genesis_hash" "previousHash (blocks late1 3) = []"
    "take 2 (hash (blocks late1 3)) = ''4d''"
    by (simp_all add: late1_eq world0_eq numeral_2_eq_2)
  have z: "take 2 (hash ((mine_step ^^ 1)
      ((blocks late1 3)\<lparr>previousHash := hash (blocks late1 1)\<rparr>))) = ''00''"
    unfolding g(1) by (simp add: late_step late_hash_def numeral_2_eq_2)
  from addBlock_relinks [OF t d, of 3] addBlock_late
  have r: "previousHash (blocks late2 3) = hash (blocks late1 1) \<and>
    arrays late2 (chain example_ledger) = arrays late1 (chain example_ledger) @ [3] \<and>
    late_hash = hash (blocks late2 3) \<and> take 2 late_hash = ''00''"
    by blast
  have c: "arrays late2 (chain example_ledger) = [1, 3]"
    by (simp add: late2_def example_ledger_eq)
  have v: "isChainValid example_ledger late2"
    by (simp add: isChainValid_two [OF c] blocks_late2 calculateHash_def digest_late1)
  have "nonce (blocks late2 3) = 1"
    by (simp add: blocks_late2)
  with r t d g z v show ?thesis
    by (simp add: addBlock_late)
qed

text \<open>
  The claim as stated fails for a block whose nonce is \<open>2 ^ 53\<close>, where \<open>nonce++\<close> no
  longer changes the number: every step of the search recomputes the same hash
  \<open>70286da6...\<close>, and \<open>addBlock\<close> neither appends the block nor returns a hash.
\<close>

theorem addBlock_never_returns:
  "new_Block 1 1700000007106 example_payload [] world0 = (3, unsealed1) \<and>
   stuck1 = assign_field 3 (SetNonce 9007199254740992) unsealed1 \<and>
   getLatestBlock example_ledger stuck1 = Some 1 \<and>
   nonce (blocks stuck1 3) = 9007199254740992 \<and>
   addBlock example_ledger 3 stuck1 = None"
proof -
  have t: "getLatestBlock example_ledger stuck1 = Some 1"
    by (simp add: getLatestBlock_def stuck1_def assign_field_def unsealed1_eq world0_eq
        example_ledger_eq)
  have h: "hash (blocks stuck1 1) = genesis_hash"
    by (simp add: stuck1_def assign_field_def unsealed1_eq world0_eq)
  have n: "nonce (blocks stuck1 3) = 9007199254740992"
    by (simp add: stuck1_def assign_field_def)
  have d: "difficulty example_ledger = 2"
    by (simp add: example_ledger_eq)
  have "addBlock example_ledger 3 stuck1 = None"
    using t h stuck_search
    by (simp add: addBlock_def mineBlock_def Let_def d Array_join_zeros_def numeral_2_eq_2)
  with t n show ?thesis
    by (simp add: new_Block_unsealed stuck1_def)
qed

end
